theory Spec2Isabelle
  imports Complex_Main "HOL-Library.Multiset"
begin

section \<open>The emotion quintile-analysis engine of \<^verbatim>\<open>sentiment_processor.py\<close>\<close>

text \<open>
  The theory embeds \<^verbatim>\<open>SentimentProcessor.process_sentiment_data\<close>,
  \<^verbatim>\<open>_determine_quintile\<close>, \<^verbatim>\<open>_analyze_quintiles\<close> and
  \<^verbatim>\<open>_create_streamlined_data\<close>.

  Conventions of the embedding:
  \<^item> JSON numbers (Python ints and floats) are exact rationals (\<^typ>\<open>rat\<close>), so
    rounding of binary floating point is not represented;
  \<^item> emotion names and speaker ids are strings, scores and times are numbers; a key a
    span may lack is an \<^typ>\<open>'a option\<close> field, read with the default of the
    source's \<^verbatim>\<open>.get(key, default)\<close>;
  \<^item> the pandas DataFrame \<^verbatim>\<open>df\<close> is the list of its rows; a row carries its occupied
    slots \<^verbatim>\<open>sentiment_i\<close>/\<^verbatim>\<open>sentiment_score_i\<close> (\<open>i = 1, 2, ...\<close>) as a list, the
    column \<^verbatim>\<open>sentiment_i\<close> exists when some row has an \<open>i\<close>-th slot, and a row without
    it holds NaN there;
  \<^item> \<^verbatim>\<open>df.sort_values('start_time')\<close> is taken as a stable sort (pandas' default
    quicksort may order rows of equal \<^verbatim>\<open>start_time\<close> differently);
  \<^item> Python iterates over the \<^verbatim>\<open>set\<close> \<^verbatim>\<open>all_sentiments\<close> in an order that depends on
    the interpreter's string hashing; that order is the parameter \<open>enum\<close>, which maps
    the sequence of insertions to the sequence of iteration;
  \<^item> \<^verbatim>\<open>self\<close> is the record \<open>processor\<close>, passed in and returned updated.
\<close>

subsection \<open>The prediction payload\<close>

record raw_emotion =
  emo_name :: "string option"
  emo_score :: "rat option"

text \<open>A span of either channel. \<open>span_ranked\<close> is the list under the key the channel
  reads: \<^verbatim>\<open>"emotions"\<close> for prosody, \<^verbatim>\<open>"sentiment"\<close> for language. A span without
  \<^verbatim>\<open>"time"\<close> has neither bound.\<close>

record raw_span =
  time_begin :: "rat option"
  time_end :: "rat option"
  span_text :: "string option"
  span_ranked :: "raw_emotion list option"

record speaker_group =
  group_id :: "string option"
  group_predictions :: "raw_span list option"

text \<open>\<open>prosody\<close> is \<^verbatim>\<open>result_item["models"]["prosody"]["grouped_predictions"]\<close>, \<open>None\<close>
  when one of the keys is absent; likewise \<open>language\<close>.\<close>

record result_item =
  prosody :: "speaker_group list option"
  language :: "speaker_group list option"

text \<open>\<open>results_predictions\<close> is \<^verbatim>\<open>pred_item["results"]["predictions"]\<close>, \<open>None\<close> unless
  \<^verbatim>\<open>"source"\<close>, \<^verbatim>\<open>"results"\<close> and \<^verbatim>\<open>"predictions"\<close> are all present.\<close>

record pred_item =
  results_predictions :: "result_item list option"

datatype predictions_json = PredList "pred_item list" | PredDict

subsection \<open>Segments and the DataFrame\<close>

record segment_data =
  speaker_id :: string
  start_time :: rat
  end_time :: rat
  seg_text :: string
  sentiments :: "(string \<times> rat) list"

record row = segment_data +
  quintile :: int

datatype cell = CStr string | CNum rat | CInt int

type_synonym frame = "(string \<times> cell list) list"

datatype table = Streamlined frame | Full "row list"

record quintile_record =
  time_range :: "rat \<times> rat"
  dominant_emotion :: string
  emotion_score :: rat
  top_emotions :: "(string \<times> rat) list"

record analysis =
  conversation_length_seconds :: rat
  speakers :: "(string \<times> (string \<times> quintile_record) list) list"

record processor =
  predictions :: "predictions_json option"
  processed_data :: "table option"
  top_sentiments :: "string list"
  quintile_analysis :: "analysis option"
  conversation_length :: rat

subsection \<open>Extraction of segments (lines 118-207)\<close>

text \<open>\<^verbatim>\<open>sorted(emotions, key=lambda x: x.get("score", 0), reverse=True)\<close>: Python's sort
  is stable and stays so under \<^verbatim>\<open>reverse=True\<close>.\<close>

definition score_of :: "raw_emotion \<Rightarrow> rat" where
  "score_of e = (case emo_score e of None \<Rightarrow> 0 | Some s \<Rightarrow> s)"

definition name_of :: "raw_emotion \<Rightarrow> string" where
  "name_of e = (case emo_name e of None \<Rightarrow> ''Unknown'' | Some n \<Rightarrow> n)"

definition sorted_by_score :: "raw_emotion list \<Rightarrow> raw_emotion list" where
  "sorted_by_score es = sort_key (\<lambda>e. - score_of e) es"

definition top15_slots :: "raw_emotion list option \<Rightarrow> (string \<times> rat) list" where
  "top15_slots r = (case r of None \<Rightarrow> []
     | Some es \<Rightarrow> map (\<lambda>e. (name_of e, score_of e)) (take 15 (sorted_by_score es)))"

definition build_segment_data :: "string \<Rightarrow> raw_span \<Rightarrow> segment_data" where
  "build_segment_data sid sp =
     \<lparr>speaker_id = sid,
      start_time = (case time_begin sp of None \<Rightarrow> 0 | Some b \<Rightarrow> b),
      end_time = (case time_end sp of None \<Rightarrow> 0 | Some e \<Rightarrow> e),
      seg_text = (case span_text sp of None \<Rightarrow> [] | Some t \<Rightarrow> t),
      sentiments = top15_slots (span_ranked sp)\<rparr>"

definition prosody_segment_data :: "string \<Rightarrow> raw_span \<Rightarrow> segment_data" where
  "prosody_segment_data sid sp = build_segment_data sid sp"

definition language_segment_data :: "string \<Rightarrow> raw_span \<Rightarrow> segment_data" where
  "language_segment_data sid sp = build_segment_data sid sp"

definition speaker_of :: "speaker_group \<Rightarrow> string" where
  "speaker_of g = (case group_id g of None \<Rightarrow> ''unknown'' | Some s \<Rightarrow> s)"

text \<open>The key compared at lines 204-206.\<close>

definition seg_key :: "segment_data \<Rightarrow> string \<times> rat \<times> rat" where
  "seg_key d = (speaker_id d, start_time d, end_time d)"

definition add_prosody_span :: "string \<Rightarrow> raw_span \<Rightarrow> segment_data list \<Rightarrow> segment_data list" where
  "add_prosody_span sid sp data = data @ [prosody_segment_data sid sp]"

definition add_language_span :: "string \<Rightarrow> raw_span \<Rightarrow> segment_data list \<Rightarrow> segment_data list" where
  "add_language_span sid sp data =
     (let segment = language_segment_data sid sp in
      if \<not> list_ex (\<lambda>d. speaker_id d = sid \<and> start_time d = start_time segment
                           \<and> end_time d = end_time segment) data
      then data @ [segment] else data)"

definition add_prosody_group :: "speaker_group \<Rightarrow> segment_data list \<Rightarrow> segment_data list" where
  "add_prosody_group g data = (case group_predictions g of None \<Rightarrow> data
     | Some sps \<Rightarrow> fold (add_prosody_span (speaker_of g)) sps data)"

definition add_language_group :: "speaker_group \<Rightarrow> segment_data list \<Rightarrow> segment_data list" where
  "add_language_group g data = (case group_predictions g of None \<Rightarrow> data
     | Some sps \<Rightarrow> fold (add_language_span (speaker_of g)) sps data)"

definition add_prosody :: "result_item \<Rightarrow> segment_data list \<Rightarrow> segment_data list" where
  "add_prosody r data = (case prosody r of None \<Rightarrow> data | Some gs \<Rightarrow> fold add_prosody_group gs data)"

definition add_language :: "result_item \<Rightarrow> segment_data list \<Rightarrow> segment_data list" where
  "add_language r data = (case language r of None \<Rightarrow> data | Some gs \<Rightarrow> fold add_language_group gs data)"

definition add_result_item :: "result_item \<Rightarrow> segment_data list \<Rightarrow> segment_data list" where
  "add_result_item r data = add_language r (add_prosody r data)"

definition add_pred_item :: "pred_item \<Rightarrow> segment_data list \<Rightarrow> segment_data list" where
  "add_pred_item p data = (case results_predictions p of None \<Rightarrow> data
     | Some rs \<Rightarrow> fold add_result_item rs data)"

definition extract_segments :: "pred_item list \<Rightarrow> segment_data list" where
  "extract_segments ps = fold add_pred_item ps []"

subsection \<open>Quintile assignment (lines 274-300)\<close>

text \<open>Python's \<^verbatim>\<open>int(x)\<close> on a float truncates towards zero. The quotients are exact
  here; the source's float quotient can fall on the other side of an integer where it is
  not exact (length 0.5 and a span from 0.1 to 0.5: the source computes
  2.9999999999999996 and bucket 2, exact arithmetic 3). The examples below take times
  whose sums and quotients are exact in binary floating point.\<close>

definition py_int :: "rat \<Rightarrow> int" where
  "py_int x = (if 0 \<le> x then \<lfloor>x\<rfloor> else \<lceil>x\<rceil>)"

definition determine_quintile :: "rat \<Rightarrow> rat \<Rightarrow> rat \<Rightarrow> int" where
  "determine_quintile conv_len st en =
     (if conv_len = 0 then 0
      else let midpoint = (st + en) / 2;
               quintile_size = conv_len / 5;
               q = py_int (midpoint / quintile_size)
           in if q = 5 then 4 else q)"

subsection \<open>Sorting, conversation length, quintile column (lines 218-230)\<close>

text \<open>\<^verbatim>\<open>df['end_time'].max()\<close>; the frame is not empty where the source takes it (an
  empty \<^verbatim>\<open>data\<close> returns at line 213), the value on \<open>[]\<close> is never used.\<close>

fun max_end_time :: "segment_data list \<Rightarrow> rat" where
  "max_end_time [] = 0"
| "max_end_time (d # ds) = fold (\<lambda>x m. max m (end_time x)) ds (end_time d)"

definition with_quintile :: "rat \<Rightarrow> segment_data \<Rightarrow> row" where
  "with_quintile conv_len d =
     \<lparr>speaker_id = speaker_id d, start_time = start_time d, end_time = end_time d,
      seg_text = seg_text d, sentiments = sentiments d,
      quintile = determine_quintile conv_len (start_time d) (end_time d)\<rparr>"

definition sort_values_start_time :: "segment_data list \<Rightarrow> segment_data list" where
  "sort_values_start_time data = sort_key start_time data"

subsection \<open>Slots and columns of the frame\<close>

definition slot :: "row \<Rightarrow> nat \<Rightarrow> (string \<times> rat) option" where
  "slot r i = (if 1 \<le> i \<and> i \<le> length (sentiments r) then Some (sentiments r ! (i - 1)) else None)"

definition col_exists :: "row list \<Rightarrow> nat \<Rightarrow> bool" where
  "col_exists df i = list_ex (\<lambda>r. i \<le> length (sentiments r)) df"

text \<open>\<^verbatim>\<open>Series.unique()\<close>: the distinct values in order of first appearance.\<close>

definition unique :: "'a list \<Rightarrow> 'a list" where
  "unique xs = rev (remdups (rev xs))"

subsection \<open>Vocabulary (lines 236-255)\<close>

definition column_names :: "row list \<Rightarrow> nat \<Rightarrow> string list" where
  "column_names df i = List.map_filter (\<lambda>r. map_option fst (slot r i)) df"

text \<open>The sequence of insertions into the set \<^verbatim>\<open>all_sentiments\<close>.\<close>

definition all_sentiments_inserted :: "row list \<Rightarrow> string list" where
  "all_sentiments_inserted df =
     concat (map (\<lambda>i. if col_exists df i then unique (column_names df i) else []) [1..<16])"

definition sentiment_count :: "row list \<Rightarrow> string \<Rightarrow> nat" where
  "sentiment_count df sentiment =
     sum_list (map (\<lambda>i. if col_exists df i
                         then length (filter (\<lambda>r. map_option fst (slot r i) = Some sentiment) df)
                         else 0) [1..<16])"

definition sentiment_counts :: "(string list \<Rightarrow> string list) \<Rightarrow> row list \<Rightarrow> (string \<times> nat) list" where
  "sentiment_counts enum df =
     map (\<lambda>sentiment. (sentiment, sentiment_count df sentiment)) (enum (all_sentiments_inserted df))"

definition compute_top_sentiments :: "(string list \<Rightarrow> string list) \<Rightarrow> row list \<Rightarrow> string list" where
  "compute_top_sentiments enum df =
     map fst (take 15 (sort_key (\<lambda>x. - int (snd x)) (sentiment_counts enum df)))"

text \<open>What an iteration order of a Python set has to satisfy.\<close>

definition valid_enum :: "(string list \<Rightarrow> string list) \<Rightarrow> bool" where
  "valid_enum enum = (\<forall>xs. set (enum xs) = set xs \<and> distinct (enum xs))"

subsection \<open>The streamlined frame (lines 403-434)\<close>

definition set_column :: "string \<Rightarrow> cell list \<Rightarrow> frame \<Rightarrow> frame" where
  "set_column name vals fr =
     (if list_ex (\<lambda>kc. fst kc = name) fr
      then map (\<lambda>kc. if fst kc = name then (name, vals) else kc) fr
      else fr @ [(name, vals)])"

text \<open>\<^verbatim>\<open>streamlined_df.loc[matches, name] = df.loc[matches, score_col].values\<close>; \<open>vals\<close>
  lists the candidate value of every row, used where \<open>matches\<close> holds.\<close>

definition loc_assign :: "bool list \<Rightarrow> string \<Rightarrow> cell list \<Rightarrow> frame \<Rightarrow> frame" where
  "loc_assign matches name vals fr =
     map (\<lambda>kc. if fst kc = name
                then (fst kc, map (\<lambda>(m, v, c). if m then v else c) (zip matches (zip vals (snd kc))))
                else kc) fr"

definition slot_score_cell :: "row \<Rightarrow> nat \<Rightarrow> cell" where
  "slot_score_cell r i = (case slot r i of None \<Rightarrow> CNum 0 | Some ns \<Rightarrow> CNum (snd ns))"

definition fill_from_slot :: "row list \<Rightarrow> string \<Rightarrow> nat \<Rightarrow> frame \<Rightarrow> frame" where
  "fill_from_slot df sentiment i fr =
     (if col_exists df i
      then loc_assign (map (\<lambda>r. map_option fst (slot r i) = Some sentiment) df) sentiment
             (map (\<lambda>r. slot_score_cell r i) df) fr
      else fr)"

definition add_sentiment_column :: "row list \<Rightarrow> string \<Rightarrow> frame \<Rightarrow> frame" where
  "add_sentiment_column df sentiment fr =
     fold (fill_from_slot df sentiment) [1..<16]
       (set_column sentiment (replicate (length df) (CNum 0)) fr)"

definition essential_columns :: "row list \<Rightarrow> frame" where
  "essential_columns df =
     [(''speaker_id'', map (\<lambda>r. CStr (speaker_id r)) df),
      (''start_time'', map (\<lambda>r. CNum (start_time r)) df),
      (''end_time'', map (\<lambda>r. CNum (end_time r)) df),
      (''text'', map (\<lambda>r. CStr (seg_text r)) df),
      (''quintile'', map (\<lambda>r. CInt (quintile r)) df)]"

definition streamlined_frame :: "string list \<Rightarrow> row list \<Rightarrow> frame" where
  "streamlined_frame tops df = fold (add_sentiment_column df) tops (essential_columns df)"

definition create_streamlined_data :: "row list \<Rightarrow> processor \<Rightarrow> processor" where
  "create_streamlined_data df self =
     self\<lparr>processed_data := Some (Streamlined (streamlined_frame (top_sentiments self) df))\<rparr>"

subsection \<open>Quintile analysis (lines 302-401)\<close>

definition duration :: "row \<Rightarrow> rat" where
  "duration r = end_time r - start_time r"

definition total_duration :: "row list \<Rightarrow> rat" where
  "total_duration quintile_data = sum_list (map duration quintile_data)"

definition weight :: "rat \<Rightarrow> row \<Rightarrow> rat" where
  "weight total_dur r = (if total_dur > 0 then duration r / total_dur else 0)"

text \<open>\<^verbatim>\<open>str.isdigit()\<close> on ASCII text: not empty, decimal digits only. Names are
  strings here, so the other test of line 361, \<^verbatim>\<open>isinstance(sentiment_name, (int, float))\<close>,
  is false and \<open>relabel\<close> has the string case only.\<close>

definition isdigit :: "string \<Rightarrow> bool" where
  "isdigit s = (s \<noteq> [] \<and> list_all (\<lambda>c. List.member ''0123456789'' c) s)"

definition relabel :: "string \<Rightarrow> string" where
  "relabel sentiment_name =
     (if isdigit sentiment_name then ''Emotion_'' @ sentiment_name else sentiment_name)"

text \<open>The insertion-ordered dict \<^verbatim>\<open>weighted_emotions\<close>: a new name enters with \<open>0\<close> at
  the end, then the weighted score is added.\<close>

fun add_weighted :: "string \<Rightarrow> rat \<Rightarrow> (string \<times> rat) list \<Rightarrow> (string \<times> rat) list" where
  "add_weighted n v [] = [(n, 0 + v)]"
| "add_weighted n v (kw # kws) =
     (if fst kw = n then (fst kw, snd kw + v) # kws else kw # add_weighted n v kws)"

definition add_slot :: "row \<Rightarrow> rat \<Rightarrow> nat \<Rightarrow> (string \<times> rat) list \<Rightarrow> (string \<times> rat) list" where
  "add_slot r w i we = (case slot r i of None \<Rightarrow> we
     | Some ns \<Rightarrow> add_weighted (relabel (fst ns)) (snd ns * w) we)"

definition add_segment :: "rat \<Rightarrow> row \<Rightarrow> (string \<times> rat) list \<Rightarrow> (string \<times> rat) list" where
  "add_segment total_dur r we = fold (add_slot r (weight total_dur r)) [1..<16] we"

definition weighted_emotions :: "row list \<Rightarrow> (string \<times> rat) list" where
  "weighted_emotions quintile_data =
     fold (add_segment (total_duration quintile_data)) quintile_data []"

text \<open>\<^verbatim>\<open>max(items, key=lambda x: x[1])\<close> returns the first item of greatest value.\<close>

fun max_by_value :: "(string \<times> rat) \<Rightarrow> (string \<times> rat) list \<Rightarrow> (string \<times> rat)" where
  "max_by_value best [] = best"
| "max_by_value best (x # xs) = max_by_value (if snd best < snd x then x else best) xs"

definition quintile_label :: "nat \<Rightarrow> string" where
  "quintile_label q = ''quintile_'' @ [''12345'' ! q]"

definition quintile_data_of :: "row list \<Rightarrow> string \<Rightarrow> nat \<Rightarrow> row list" where
  "quintile_data_of df speaker q =
     filter (\<lambda>r. quintile r = int q) (filter (\<lambda>r. speaker_id r = speaker) df)"

text \<open>One pass of the loop over \<^verbatim>\<open>range(5)\<close>: the entries it adds to
  \<^verbatim>\<open>speaker_quintiles\<close>. \<open>time_range\<close> keeps the two bounds the source formats with
  \<^verbatim>\<open>:.2f\<close>.\<close>

definition quintile_entry :: "rat \<Rightarrow> row list \<Rightarrow> string \<Rightarrow> nat \<Rightarrow> (string \<times> quintile_record) list" where
  "quintile_entry conv_len df speaker q =
     (let quintile_data = quintile_data_of df speaker q in
      if quintile_data = [] then []
      else case weighted_emotions quintile_data of
             [] \<Rightarrow> []
           | e # es \<Rightarrow>
               (let dominant = max_by_value e es;
                    quintile_size = conv_len / 5
                in [(quintile_label q,
                     \<lparr>time_range = (of_nat q * quintile_size, (of_nat q + 1) * quintile_size),
                      dominant_emotion = fst dominant,
                      emotion_score = snd dominant,
                      top_emotions = take 5 (sort_key (\<lambda>x. - snd x) (e # es))\<rparr>)]))"

definition speaker_quintiles :: "rat \<Rightarrow> row list \<Rightarrow> string \<Rightarrow> (string \<times> quintile_record) list" where
  "speaker_quintiles conv_len df speaker = concat (map (quintile_entry conv_len df speaker) [0..<5])"

definition analyze_quintiles :: "row list \<Rightarrow> processor \<Rightarrow> processor" where
  "analyze_quintiles df self =
     self\<lparr>quintile_analysis := Some
       \<lparr>conversation_length_seconds = conversation_length self,
        speakers = map (\<lambda>speaker. (speaker, speaker_quintiles (conversation_length self) df speaker))
                     (unique (map speaker_id df))\<rparr>\<rparr>"

subsection \<open>The pipeline (lines 99-272)\<close>

definition extract_data :: "predictions_json option \<Rightarrow> segment_data list" where
  "extract_data p = (case p of Some (PredList ps) \<Rightarrow> extract_segments ps | _ \<Rightarrow> [])"

text \<open>Lines 107-260: the frame and the processor once \<^verbatim>\<open>_create_streamlined_data\<close> has
  run; \<open>None\<close> where the source returns \<^verbatim>\<open>None\<close> (no predictions, or no segment).\<close>

definition streamlined_stage :: "(string list \<Rightarrow> string list) \<Rightarrow> processor \<Rightarrow> (row list \<times> processor) option" where
  "streamlined_stage enum self =
     (let data = extract_data (predictions self) in
      if data = [] then None
      else let sorted_data = sort_values_start_time data;
               self1 = self\<lparr>conversation_length := max_end_time sorted_data\<rparr>;
               df = map (with_quintile (conversation_length self1)) sorted_data;
               self2 = self1\<lparr>top_sentiments := compute_top_sentiments enum df\<rparr>
           in Some (df, create_streamlined_data df self2))"

definition process_sentiment_data :: "(string list \<Rightarrow> string list) \<Rightarrow> processor \<Rightarrow> row list option \<times> processor" where
  "process_sentiment_data enum self =
     (case streamlined_stage enum self of None \<Rightarrow> (None, self)
      | Some (df, self3) \<Rightarrow>
          (Some df, (analyze_quintiles df self3)\<lparr>processed_data := Some (Full df)\<rparr>))"

text \<open>The state \<^verbatim>\<open>__init__\<close> leaves once the predictions are loaded.\<close>

definition init_processor :: "predictions_json option \<Rightarrow> processor" where
  "init_processor p = \<lparr>predictions = p, processed_data = None, top_sentiments = [],
     quintile_analysis = None, conversation_length = 0\<rparr>"

subsection \<open>Payloads used in the examples\<close>

definition emotion :: "string \<Rightarrow> rat \<Rightarrow> raw_emotion" where
  "emotion n s = \<lparr>emo_name = Some n, emo_score = Some s\<rparr>"

definition timed_span :: "rat \<Rightarrow> rat \<Rightarrow> raw_emotion list \<Rightarrow> raw_span" where
  "timed_span b e es =
     \<lparr>time_begin = Some b, time_end = Some e, span_text = None, span_ranked = Some es\<rparr>"

definition group_of :: "string \<Rightarrow> raw_span list \<Rightarrow> speaker_group" where
  "group_of sid sps = \<lparr>group_id = Some sid, group_predictions = Some sps\<rparr>"

definition prosody_payload :: "speaker_group list \<Rightarrow> predictions_json" where
  "prosody_payload gs =
     PredList [\<lparr>results_predictions = Some [\<lparr>prosody = Some gs, language = None\<rparr>]\<rparr>]"

text \<open>Speaker A, \<open>[0s,10s]\<close> with Joy 0.8 and Calm 0.2, then \<open>[10s,20s]\<close> with Joy 0.4 and
  Anger 0.6.\<close>

definition scenario_payload :: predictions_json where
  "scenario_payload = prosody_payload [group_of ''A''
     [timed_span 0 10 [emotion ''Joy'' (8 / 10), emotion ''Calm'' (2 / 10)],
      timed_span 10 20 [emotion ''Joy'' (4 / 10), emotion ''Anger'' (6 / 10)]]]"

text \<open>One instantaneous span at 5s.\<close>

definition instant_payload :: predictions_json where
  "instant_payload = prosody_payload [group_of ''A'' [timed_span 5 5 [emotion ''Joy'' (9 / 10)]]]"

text \<open>Two rows of speaker A in the first fifth of a conversation (durations 1s and 3s).\<close>

definition same_bucket_frame :: "row list" where
  "same_bucket_frame =
     [\<lparr>speaker_id = ''A'', start_time = 0, end_time = 1, seg_text = [],
        sentiments = [(''Joy'', 1 / 2)], quintile = 0\<rparr>,
      \<lparr>speaker_id = ''A'', start_time = 1, end_time = 4, seg_text = [],
        sentiments = [(''Calm'', 1 / 2)], quintile = 0\<rparr>]"

text \<open>The frame of \<open>instant_payload\<close>.\<close>

definition instant_frame :: "row list" where
  "instant_frame =
     [\<lparr>speaker_id = ''A'', start_time = 5, end_time = 5, seg_text = [],
        sentiments = [(''Joy'', 9 / 10)], quintile = 4\<rparr>]"

text \<open>A span whose strongest emotion has the name \<open>123\<close>, and its frame.\<close>

definition numeric_name_payload :: predictions_json where
  "numeric_name_payload = prosody_payload [group_of ''A''
     [timed_span 0 10 [emotion ''123'' (7 / 10), emotion ''Joy'' (3 / 10)]]]"

definition numeric_name_frame :: "row list" where
  "numeric_name_frame =
     [\<lparr>speaker_id = ''A'', start_time = 0, end_time = 10, seg_text = [],
        sentiments = [(''123'', 7 / 10), (''Joy'', 3 / 10)], quintile = 2\<rparr>]"

text \<open>The cell the claim on the flattened table describes: 0 when none of the slots 1 to
  15 of the row has the name, else the score of the last of them that has it.\<close>

definition last_matching_score :: "string \<Rightarrow> row \<Rightarrow> rat" where
  "last_matching_score name r =
     (let matches = filter (\<lambda>ns. fst ns = name) (take 15 (sentiments r))
      in if matches = [] then 0 else snd (last matches))"

text \<open>What one slot index does to the cell of a row in the column of a name.\<close>

definition fill_cell :: "string \<Rightarrow> row \<Rightarrow> nat \<Rightarrow> cell \<Rightarrow> cell" where
  "fill_cell name r i c = (if map_option fst (slot r i) = Some name then slot_score_cell r i else c)"

text \<open>A span that names Joy twice, and its frame.\<close>

definition duplicate_name_payload :: predictions_json where
  "duplicate_name_payload = prosody_payload [group_of ''A''
     [timed_span 0 10 [emotion ''Joy'' (2 / 5), emotion ''Calm'' (1 / 5), emotion ''Joy'' (4 / 5)]]]"

definition duplicate_name_frame :: "row list" where
  "duplicate_name_frame =
     [\<lparr>speaker_id = ''A'', start_time = 0, end_time = 10, seg_text = [],
        sentiments = [(''Joy'', 4 / 5), (''Joy'', 2 / 5), (''Calm'', 1 / 5)], quintile = 2\<rparr>]"

text \<open>The names in the occupied slots of all segments, each as often as it fills a slot,
  and the number of occurrences of a name, as the claim on the vocabulary counts them.\<close>

definition slot_names :: "row list \<Rightarrow> string list" where
  "slot_names df = concat (map (\<lambda>r. map fst (take 15 (sentiments r))) df)"

definition occurrences :: "row list \<Rightarrow> string \<Rightarrow> nat" where
  "occurrences df name = count_list (slot_names df) name"

text \<open>The segments a channel offers, in the order of the payload: one per span of a
  group, of a result item, of the whole list.\<close>

definition group_prosody_segments :: "speaker_group \<Rightarrow> segment_data list" where
  "group_prosody_segments g = (case group_predictions g of None \<Rightarrow> []
     | Some sps \<Rightarrow> map (prosody_segment_data (speaker_of g)) sps)"

definition group_language_segments :: "speaker_group \<Rightarrow> segment_data list" where
  "group_language_segments g = (case group_predictions g of None \<Rightarrow> []
     | Some sps \<Rightarrow> map (language_segment_data (speaker_of g)) sps)"

definition prosody_segments_of :: "result_item \<Rightarrow> segment_data list" where
  "prosody_segments_of r = (case prosody r of None \<Rightarrow> []
     | Some gs \<Rightarrow> concat (map group_prosody_segments gs))"

definition language_segments_of :: "result_item \<Rightarrow> segment_data list" where
  "language_segments_of r = (case language r of None \<Rightarrow> []
     | Some gs \<Rightarrow> concat (map group_language_segments gs))"

definition all_prosody_segments :: "pred_item list \<Rightarrow> segment_data list" where
  "all_prosody_segments ps =
     concat (map (\<lambda>p. case results_predictions p of None \<Rightarrow> []
                       | Some rs \<Rightarrow> concat (map prosody_segments_of rs)) ps)"

text \<open>\<open>new\<close> brings no key of \<open>data\<close> and no key twice.\<close>

definition fresh_keys :: "segment_data list \<Rightarrow> segment_data list \<Rightarrow> bool" where
  "fresh_keys data new =
     (distinct (map seg_key new) \<and> list_all (\<lambda>l. \<not> List.member (map seg_key data) (seg_key l)) new)"

text \<open>A result item with a span of speaker A at \<open>[0s,10s]\<close> in both channels; a payload
  whose first result item has that span in the language channel and whose second has it
  in the prosody channel; a payload with two prosody spans of one key.\<close>

definition both_channels_item :: result_item where
  "both_channels_item =
     \<lparr>prosody = Some [group_of ''A'' [timed_span 0 10 [emotion ''Joy'' (4 / 5)]]],
      language = Some [group_of ''A'' [timed_span 0 10 [emotion ''Positive'' (9 / 10)],
                                       timed_span 10 20 [emotion ''Neutral'' (1 / 2)]]]\<rparr>"

definition cross_item_payload :: predictions_json where
  "cross_item_payload = PredList [\<lparr>results_predictions = Some
     [\<lparr>prosody = None,
       language = Some [group_of ''A'' [timed_span 0 10 [emotion ''Positive'' (9 / 10)]]]\<rparr>,
      \<lparr>prosody = Some [group_of ''A'' [timed_span 0 10 [emotion ''Joy'' (4 / 5)]]],
       language = None\<rparr>]\<rparr>]"

definition twin_prosody_payload :: predictions_json where
  "twin_prosody_payload = prosody_payload [group_of ''A''
     [timed_span 0 10 [emotion ''Joy'' (4 / 5)], timed_span 0 10 [emotion ''Calm'' (3 / 5)]]]"

text \<open>A processor that holds the scenario's predictions and the results of another run.\<close>

definition stale_processor :: processor where
  "stale_processor = \<lparr>predictions = Some scenario_payload, processed_data = Some (Full instant_frame),
     top_sentiments = [''Fear''], quintile_analysis = None, conversation_length = 5\<rparr>"

text \<open>Speaker A with a span \<open>[0s,10s]\<close> and a span that begins at 100s and has no end.\<close>

definition missing_end_payload :: predictions_json where
  "missing_end_payload = prosody_payload [group_of ''A''
     [timed_span 0 10 [emotion ''Joy'' (4 / 5)],
      \<lparr>time_begin = Some 100, time_end = None, span_text = None,
       span_ranked = Some [emotion ''Calm'' (1 / 2)]\<rparr>]]"

text \<open>The iteration order opposite to the order of first insertion.\<close>

definition reversed_unique :: "string list \<Rightarrow> string list" where
  "reversed_unique xs = rev (unique xs)"

section \<open>Properties\<close>

subsection \<open>The frame of a run\<close>

lemma process_Some_df:
  assumes "fst (process_sentiment_data enum self) = Some df"
  shows "df = map (with_quintile (conversation_length (snd (process_sentiment_data enum self))))
                (sort_values_start_time (extract_data (predictions self)))"
    and "conversation_length (snd (process_sentiment_data enum self)) =
           max_end_time (sort_values_start_time (extract_data (predictions self)))"
  using assms
  by (auto simp: process_sentiment_data_def streamlined_stage_def Let_def create_streamlined_data_def
      analyze_quintiles_def split: if_splits option.splits)

subsection \<open>Quintile assignment outside 0 to 4\<close>

text \<open>
  Claim C1. The docstring of \<^verbatim>\<open>_determine_quintile\<close> promises a quintile number from 0 to
  4, and the source replaces the value 5 by 4, but nothing bounds the midpoint by the
  conversation length: the span bounds are taken from the payload as they are (lines
  140-141, a missing end is 0). Speaker A with a span \<open>[0s,10s]\<close> and a span that begins
  at 100s and has no end: the conversation length is 10, the second row has midpoint 50
  and is given bucket 25, not one of 0, 1, 2, 3, 4. Every number of this computation
  (100, 50, 2, 25 and 5, 2.5) is exact in binary floating point.
\<close>

theorem quintile_out_of_range:
  "conversation_length (snd (process_sentiment_data unique (init_processor (Some missing_end_payload)))) = 10
   \<and> map_option (map (\<lambda>r. (start_time r, end_time r, quintile r)))
        (fst (process_sentiment_data unique (init_processor (Some missing_end_payload))))
       = Some [(0, 10, 2), (100, 0, 25)]"
  by code_simp

subsection \<open>Weights\<close>

lemma weight_positive_total: "0 < t \<Longrightarrow> weight t = (\<lambda>r. duration r / t)"
  by (simp add: fun_eq_iff weight_def)

lemma sum_list_divide: "sum_list (map (\<lambda>r. f r / (c::rat)) xs) = sum_list (map f xs) / c"
  by (induction xs) (simp_all add: add_divide_distrib)

text \<open>
  Claim C3. In every group of a speaker and a bucket whose total duration is positive, the
  weights \<open>duration / total_duration\<close> of the segments of the group add up to 1.
\<close>

theorem weights_sum_to_one:
  assumes "0 < total_duration (quintile_data_of df speaker q)"
  shows "sum_list (map (weight (total_duration (quintile_data_of df speaker q)))
                      (quintile_data_of df speaker q)) = 1"
proof -
  let ?qd = "quintile_data_of df speaker q"
  have "sum_list (map (weight (total_duration ?qd)) ?qd)
          = sum_list (map (\<lambda>r. duration r / total_duration ?qd) ?qd)"
    using assms by (simp add: weight_positive_total)
  also have "\<dots> = sum_list (map duration ?qd) / total_duration ?qd"
    by (rule sum_list_divide)
  also have "\<dots> = 1" using assms by (simp add: total_duration_def)
  finally show ?thesis .
qed

text \<open>Durations 1s and 3s in one bucket: the total is 4 and the weights are 1/4 and 3/4.\<close>

theorem weights_sum_to_one_witness:
  "0 < total_duration (quintile_data_of same_bucket_frame ''A'' 0)
   \<and> map (weight (total_duration (quintile_data_of same_bucket_frame ''A'' 0)))
         (quintile_data_of same_bucket_frame ''A'' 0) = [1 / 4, 3 / 4]
   \<and> sum_list (map (weight (total_duration (quintile_data_of same_bucket_frame ''A'' 0)))
                  (quintile_data_of same_bucket_frame ''A'' 0)) = 1"
proof -
  have h: "0 < total_duration (quintile_data_of same_bucket_frame ''A'' 0)" by code_simp
  have w: "map (weight (total_duration (quintile_data_of same_bucket_frame ''A'' 0)))
             (quintile_data_of same_bucket_frame ''A'' 0) = [1 / 4, 3 / 4]" by code_simp
  show ?thesis using weights_sum_to_one[OF h] h w by simp
qed

subsection \<open>The scenario of one speaker and two segments\<close>

text \<open>
  Claim C4. Speaker A with \<open>[0s,10s]\<close> (Joy 0.8, Calm 0.2) and \<open>[10s,20s]\<close> (Joy 0.4,
  Anger 0.6): the conversation length is 20, the first segment is in bucket 1 and the
  second in bucket 3, and the report of A has \<open>quintile_2\<close> with dominant emotion Joy and
  score 0.8 and \<open>quintile_4\<close> with dominant emotion Anger and score 0.6 (and no other
  quintile), whatever the iteration order \<open>enum\<close>.
\<close>

theorem scenario_single_speaker:
  "conversation_length (snd (process_sentiment_data enum (init_processor (Some scenario_payload)))) = 20
   \<and> map_option (map (\<lambda>r. (start_time r, end_time r, quintile r)))
        (fst (process_sentiment_data enum (init_processor (Some scenario_payload))))
       = Some [(0, 10, 1), (10, 20, 3)]
   \<and> map_option (\<lambda>a. map (\<lambda>sq. (fst sq, map (\<lambda>lr. (fst lr, dominant_emotion (snd lr), emotion_score (snd lr))) (snd sq)))
                         (speakers a))
        (quintile_analysis (snd (process_sentiment_data enum (init_processor (Some scenario_payload)))))
       = Some [(''A'', [(''quintile_2'', ''Joy'', 8 / 10), (''quintile_4'', ''Anger'', 6 / 10)])]"
  by code_simp

subsection \<open>Groups of zero total duration\<close>

lemma add_weighted_not_Nil: "add_weighted n v we \<noteq> []"
  by (cases we) auto

lemma add_weighted_zero:
  "\<forall>x \<in> set we. snd x = 0 \<Longrightarrow> \<forall>x \<in> set (add_weighted n 0 we). snd x = 0"
  by (induction we) auto

lemma add_weighted_keys: "fst ` set (add_weighted n v we) = insert n (fst ` set we)"
  by (induction we) auto

lemma max_by_value_mem: "max_by_value b xs \<in> set (b # xs)"
  by (induction xs arbitrary: b) (auto split: if_splits)

lemma add_slot_zero:
  "\<forall>x \<in> set we. snd x = 0 \<Longrightarrow> \<forall>x \<in> set (add_slot r 0 i we). snd x = 0"
  using add_weighted_zero by (auto simp: add_slot_def split: option.splits)

lemma fold_add_slot_zero:
  "\<forall>x \<in> set we. snd x = 0 \<Longrightarrow> \<forall>x \<in> set (fold (add_slot r 0) is we). snd x = 0"
proof (induction "is" arbitrary: we)
  case Nil
  then show ?case by simp
next
  case (Cons i "is")
  from Cons.prems have "\<forall>x \<in> set (add_slot r 0 i we). snd x = 0" by (rule add_slot_zero)
  then show ?case using Cons.IH by simp
qed

lemma add_segment_zero:
  assumes "t \<le> 0" and "\<forall>x \<in> set we. snd x = 0"
  shows "\<forall>x \<in> set (add_segment t r we). snd x = 0"
proof -
  have "weight t r = 0" using assms(1) by (simp add: weight_def)
  then show ?thesis using fold_add_slot_zero[OF assms(2)] by (simp add: add_segment_def)
qed

lemma fold_add_segment_zero:
  assumes "t \<le> 0"
  shows "\<forall>x \<in> set we. snd x = 0 \<Longrightarrow> \<forall>x \<in> set (fold (add_segment t) rs we). snd x = 0"
proof (induction rs arbitrary: we)
  case Nil
  then show ?case by simp
next
  case (Cons r rs)
  from assms Cons.prems have "\<forall>x \<in> set (add_segment t r we). snd x = 0" by (rule add_segment_zero)
  then show ?case using Cons.IH by simp
qed

lemma add_slot_keeps: "we \<noteq> [] \<Longrightarrow> add_slot r w i we \<noteq> []"
  by (simp add: add_slot_def add_weighted_not_Nil split: option.splits)

lemma fold_add_slot_keeps: "we \<noteq> [] \<Longrightarrow> fold (add_slot r w) is we \<noteq> []"
  by (induction "is" arbitrary: we) (simp_all add: add_slot_keeps)

lemma slot_empty: "sentiments r = [] \<Longrightarrow> slot r i = None"
  by (simp add: slot_def)

lemma fold_add_slot_empty: "sentiments r = [] \<Longrightarrow> fold (add_slot r w) is we = we"
  by (induction "is" arbitrary: we) (simp_all add: add_slot_def slot_empty)

lemma upt_1_16: "[1..<16] = 1 # [2..<16]"
  by (simp add: upt_conv_Cons)

lemma add_segment_Nil_iff: "add_segment t r we = [] \<longleftrightarrow> we = [] \<and> sentiments r = []"
proof (cases "sentiments r = []")
  case True
  then show ?thesis by (simp add: add_segment_def fold_add_slot_empty)
next
  case False
  then have "slot r 1 \<noteq> None" by (cases "sentiments r") (simp_all add: slot_def)
  then have "add_slot r (weight t r) 1 we \<noteq> []"
    by (auto simp: add_slot_def add_weighted_not_Nil split: option.splits)
  then have "fold (add_slot r (weight t r)) [2..<16] (add_slot r (weight t r) 1 we) \<noteq> []"
    by (rule fold_add_slot_keeps)
  moreover have "add_segment t r we
      = fold (add_slot r (weight t r)) [2..<16] (add_slot r (weight t r) 1 we)"
    by (simp only: add_segment_def upt_1_16 fold.simps comp_apply)
  ultimately have "add_segment t r we \<noteq> []" by simp
  with False show ?thesis by simp
qed

lemma fold_add_segment_Nil_iff:
  "fold (add_segment t) rs we = [] \<longleftrightarrow> we = [] \<and> (\<forall>r \<in> set rs. sentiments r = [])"
  by (induction rs arbitrary: we) (auto simp: add_segment_Nil_iff)

lemma weighted_emotions_Nil_iff:
  "weighted_emotions qd = [] \<longleftrightarrow> (\<forall>r \<in> set qd. sentiments r = [])"
  by (simp add: weighted_emotions_def fold_add_segment_Nil_iff)

lemma map_singleton_const: "length xs = 1 \<Longrightarrow> \<forall>x \<in> set xs. f x = c \<Longrightarrow> map f xs = [c]"
  by (cases xs) auto

text \<open>
  Claim C2, as the code has it. In a group of a speaker and a bucket whose total duration
  is 0, every segment has weight 0 (nothing is divided), and every name of the weighted
  map has the value 0. The map is empty, and the bucket left out of the report, exactly
  when no segment of the group has an occupied slot; otherwise the bucket is reported,
  with emotion score 0.
\<close>

theorem zero_duration_group:
  assumes "total_duration (quintile_data_of df speaker q) = 0"
  shows "(\<forall>r \<in> set (quintile_data_of df speaker q).
            weight (total_duration (quintile_data_of df speaker q)) r = 0)
       \<and> (\<forall>x \<in> set (weighted_emotions (quintile_data_of df speaker q)). snd x = 0)
       \<and> (weighted_emotions (quintile_data_of df speaker q) = []
            \<longleftrightarrow> (\<forall>r \<in> set (quintile_data_of df speaker q). sentiments r = []))
       \<and> (quintile_entry conv_len df speaker q = []
            \<longleftrightarrow> (\<forall>r \<in> set (quintile_data_of df speaker q). sentiments r = []))
       \<and> (\<forall>e \<in> set (quintile_entry conv_len df speaker q).
            fst e = quintile_label q \<and> emotion_score (snd e) = 0)"
proof -
  let ?qd = "quintile_data_of df speaker q"
  have w: "\<forall>r \<in> set ?qd. weight (total_duration ?qd) r = 0"
    using assms by (simp add: weight_def)
  have z: "\<forall>x \<in> set (weighted_emotions ?qd). snd x = 0"
    unfolding weighted_emotions_def
    using assms by (intro fold_add_segment_zero) simp_all
  have n: "weighted_emotions ?qd = [] \<longleftrightarrow> (\<forall>r \<in> set ?qd. sentiments r = [])"
    by (rule weighted_emotions_Nil_iff)
  have e: "quintile_entry conv_len df speaker q = [] \<longleftrightarrow> (\<forall>r \<in> set ?qd. sentiments r = [])"
    using n by (auto simp: quintile_entry_def Let_def split: list.splits)
  have s: "\<forall>e \<in> set (quintile_entry conv_len df speaker q).
            fst e = quintile_label q \<and> emotion_score (snd e) = 0"
  proof (cases "weighted_emotions ?qd")
    case Nil
    then show ?thesis by (simp add: quintile_entry_def Let_def)
  next
    case (Cons a as)
    have "max_by_value a as \<in> set (weighted_emotions ?qd)"
      using max_by_value_mem[of a as] Cons by simp
    with z have "snd (max_by_value a as) = 0" by blast
    then show ?thesis using Cons by (simp add: quintile_entry_def Let_def)
  qed
  from w z n e s show ?thesis by blast
qed

text \<open>The instantaneous span at 5s is alone in bucket 4, with total duration 0.\<close>

theorem zero_duration_group_witness:
  "total_duration (quintile_data_of instant_frame ''A'' 4) = 0
   \<and> map (weight (total_duration (quintile_data_of instant_frame ''A'' 4)))
         (quintile_data_of instant_frame ''A'' 4) = [0]
   \<and> map snd (weighted_emotions (quintile_data_of instant_frame ''A'' 4)) = [0]
   \<and> map (\<lambda>e. (fst e, emotion_score (snd e))) (quintile_entry 5 instant_frame ''A'' 4)
       = [(quintile_label 4, 0)]"
proof -
  have h: "total_duration (quintile_data_of instant_frame ''A'' 4) = 0" by code_simp
  have q: "length (quintile_data_of instant_frame ''A'' 4) = 1" by code_simp
  have e: "map fst (quintile_entry 5 instant_frame ''A'' 4) = [quintile_label 4]" by code_simp
  have l: "length (weighted_emotions (quintile_data_of instant_frame ''A'' 4)) = 1" by code_simp
  from zero_duration_group[OF h, of 5]
  have w: "\<forall>r \<in> set (quintile_data_of instant_frame ''A'' 4).
             weight (total_duration (quintile_data_of instant_frame ''A'' 4)) r = 0"
    and z: "\<forall>x \<in> set (weighted_emotions (quintile_data_of instant_frame ''A'' 4)). snd x = 0"
    and s: "\<forall>e \<in> set (quintile_entry 5 instant_frame ''A'' 4).
              fst e = quintile_label 4 \<and> emotion_score (snd e) = 0"
    by blast+
  have 1: "map (weight (total_duration (quintile_data_of instant_frame ''A'' 4)))
             (quintile_data_of instant_frame ''A'' 4) = [0]"
    using q w by (rule map_singleton_const)
  have 2: "map snd (weighted_emotions (quintile_data_of instant_frame ''A'' 4)) = [0]"
    using l z by (rule map_singleton_const)
  have 3: "map (\<lambda>e. (fst e, emotion_score (snd e))) (quintile_entry 5 instant_frame ''A'' 4)
             = [(quintile_label 4, 0)]"
    using s e by (cases "quintile_entry 5 instant_frame ''A'' 4") auto
  from h 1 2 3 show ?thesis by blast
qed

text \<open>The claim as the spec states it fails on the instantaneous span: the weighted map
  of its bucket is not empty, and the report has \<open>quintile_5\<close> for speaker A.\<close>

theorem zero_duration_bucket_reported:
  "fst (process_sentiment_data unique (init_processor (Some instant_payload))) = Some instant_frame
   \<and> total_duration (quintile_data_of instant_frame ''A'' 4) = 0
   \<and> weighted_emotions (quintile_data_of instant_frame ''A'' 4) = [(''Joy'', 0)]
   \<and> map_option speakers
        (quintile_analysis (snd (process_sentiment_data unique (init_processor (Some instant_payload)))))
       = Some [(''A'', [(''quintile_5'',
                  \<lparr>time_range = (4, 5), dominant_emotion = ''Joy'', emotion_score = 0,
                   top_emotions = [(''Joy'', 0)]\<rparr>)])]"
  by code_simp

subsection \<open>Numeric emotion names\<close>

lemma relabel_not_digit: "\<not> isdigit (relabel n)"
  by (simp add: relabel_def isdigit_def)

lemma set_take_nth: "set (take n xs) = {xs ! j | j. j < n \<and> j < length xs}"
proof (intro set_eqI iffI)
  fix x assume "x \<in> set (take n xs)"
  then obtain i where "i < length (take n xs)" "take n xs ! i = x"
    by (auto simp: in_set_conv_nth)
  then have "i < n \<and> i < length xs \<and> x = xs ! i" by simp
  then show "x \<in> {xs ! j | j. j < n \<and> j < length xs}" by blast
next
  fix x assume "x \<in> {xs ! j | j. j < n \<and> j < length xs}"
  then obtain j where "j < n" "j < length xs" "x = xs ! j" by blast
  then have "j < length (take n xs)" "take n xs ! j = x" by simp_all
  then show "x \<in> set (take n xs)" by (metis nth_mem)
qed

lemma slots_take:
  "{ns. \<exists>i \<in> set [1..<16]. slot r i = Some ns} = set (take 15 (sentiments r))"
proof -
  have "{ns. \<exists>i \<in> set [1..<16]. slot r i = Some ns}
      = {sentiments r ! j | j. j < 15 \<and> j < length (sentiments r)}" (is "?A = ?B")
  proof (intro set_eqI iffI)
    fix ns assume "ns \<in> ?A"
    then obtain i where i: "1 \<le> i" "i < 16" "i \<le> length (sentiments r)" "ns = sentiments r ! (i - 1)"
      by (auto simp: slot_def split: if_splits)
    then have "i - 1 < 15 \<and> i - 1 < length (sentiments r)" by arith
    with i(4) show "ns \<in> ?B" by blast
  next
    fix ns assume "ns \<in> ?B"
    then obtain j where j: "j < 15" "j < length (sentiments r)" "ns = sentiments r ! j" by blast
    then have "Suc j \<in> set [1..<16]" "slot r (Suc j) = Some ns" by (simp_all add: slot_def)
    then show "ns \<in> ?A" by blast
  qed
  also have "\<dots> = set (take 15 (sentiments r))"
    by (simp add: set_take_nth)
  finally show ?thesis .
qed

lemma add_slot_keys:
  "fst ` set (add_slot r w i we)
     = fst ` set we \<union> relabel ` fst ` {ns. slot r i = Some ns}"
  by (cases "slot r i") (simp_all add: add_slot_def add_weighted_keys)

lemma fold_add_slot_keys:
  "fst ` set (fold (add_slot r w) is we)
     = fst ` set we \<union> relabel ` fst ` {ns. \<exists>i \<in> set is. slot r i = Some ns}"
proof (induction "is" arbitrary: we)
  case Nil
  then show ?case by simp
next
  case (Cons i "is")
  have "{ns. \<exists>j \<in> set (i # is). slot r j = Some ns}
         = {ns. slot r i = Some ns} \<union> {ns. \<exists>j \<in> set is. slot r j = Some ns}" by auto
  then show ?case by (simp add: Cons.IH add_slot_keys image_Un Un_assoc)
qed

lemma add_segment_keys:
  "fst ` set (add_segment t r we) = fst ` set we \<union> relabel ` fst ` set (take 15 (sentiments r))"
  unfolding add_segment_def fold_add_slot_keys slots_take ..

lemma fold_add_segment_keys:
  "fst ` set (fold (add_segment t) rs we)
     = fst ` set we \<union> relabel ` fst ` (\<Union>r \<in> set rs. set (take 15 (sentiments r)))"
  by (induction rs arbitrary: we) (simp_all add: add_segment_keys image_Un Un_assoc)

lemma weighted_emotions_keys:
  "fst ` set (weighted_emotions qd) = relabel ` fst ` (\<Union>r \<in> set qd. set (take 15 (sentiments r)))"
  by (simp add: weighted_emotions_def fold_add_segment_keys)

lemma weighted_emotions_no_digit: "x \<in> set (weighted_emotions qd) \<Longrightarrow> \<not> isdigit (fst x)"
proof -
  assume "x \<in> set (weighted_emotions qd)"
  then have "fst x \<in> fst ` set (weighted_emotions qd)" by (rule imageI)
  then obtain n where "fst x = relabel n" unfolding weighted_emotions_keys by blast
  then show ?thesis by (simp add: relabel_not_digit)
qed

lemma quintile_entry_names:
  assumes "e \<in> set (quintile_entry conv_len df speaker q)"
  shows "(dominant_emotion (snd e), emotion_score (snd e)) \<in> set (weighted_emotions (quintile_data_of df speaker q))"
    and "set (top_emotions (snd e)) \<subseteq> set (weighted_emotions (quintile_data_of df speaker q))"
proof -
  let ?we = "weighted_emotions (quintile_data_of df speaker q)"
  from assms have ne: "?we \<noteq> []"
    by (auto simp: quintile_entry_def Let_def split: if_splits list.splits)
  then obtain a as where we: "?we = a # as" by (cases ?we) auto
  with assms have e: "e = (quintile_label q,
                 \<lparr>time_range = (of_nat q * (conv_len / 5), (of_nat q + 1) * (conv_len / 5)),
                  dominant_emotion = fst (max_by_value a as),
                  emotion_score = snd (max_by_value a as),
                  top_emotions = take 5 (sort_key (\<lambda>x. - snd x) (a # as))\<rparr>)"
    by (simp add: quintile_entry_def Let_def split: if_splits)
  have "max_by_value a as \<in> set ?we" using max_by_value_mem[of a as] we by simp
  then show "(dominant_emotion (snd e), emotion_score (snd e)) \<in> set ?we" by (simp add: e)
  have "set (take 5 (sort_key (\<lambda>x. - snd x) (a # as))) \<subseteq> set (sort_key (\<lambda>x. - snd x) (a # as))"
    by (rule set_take_subset)
  then show "set (top_emotions (snd e)) \<subseteq> set ?we"
    by (simp add: e we del: sort_key_simps)
qed

text \<open>
  Claim C7, as the code has it. The normalizer stores the names of a span as they are
  (those of the 15 best scored entries, in that order). The remap of a digit-only name to
  \<open>Emotion_<name>\<close> takes place in the quintile analysis, when a slot is added to the
  weighted map: the names of the weighted map of a group are the relabelled names of the
  slots of its rows, so no name of a weighted map, and no dominant or top emotion of a
  quintile record, consists of digits only.
\<close>

theorem relabel_at_aggregation:
  "map fst (sentiments (prosody_segment_data sid \<lparr>time_begin = b, time_end = en, span_text = t, span_ranked = Some es\<rparr>))
     = map name_of (take 15 (sorted_by_score es))
   \<and> fst ` set (weighted_emotions qd) = relabel ` fst ` (\<Union>r \<in> set qd. set (take 15 (sentiments r)))
   \<and> (isdigit n \<longrightarrow> relabel n = ''Emotion_'' @ n)
   \<and> (\<forall>x \<in> set (weighted_emotions qd). \<not> isdigit (fst x))
   \<and> (\<forall>e \<in> set (quintile_entry conv_len df speaker q).
         \<not> isdigit (dominant_emotion (snd e)) \<and> (\<forall>x \<in> set (top_emotions (snd e)). \<not> isdigit (fst x)))"
proof -
  have 1: "map fst (sentiments (prosody_segment_data sid \<lparr>time_begin = b, time_end = en, span_text = t, span_ranked = Some es\<rparr>))
     = map name_of (take 15 (sorted_by_score es))"
    by (simp add: prosody_segment_data_def build_segment_data_def top15_slots_def comp_def)
  have 2: "isdigit n \<longrightarrow> relabel n = ''Emotion_'' @ n" by (simp add: relabel_def)
  have 3: "\<forall>x \<in> set (weighted_emotions qd). \<not> isdigit (fst x)"
    using weighted_emotions_no_digit by blast
  have 4: "\<forall>e \<in> set (quintile_entry conv_len df speaker q).
         \<not> isdigit (dominant_emotion (snd e)) \<and> (\<forall>x \<in> set (top_emotions (snd e)). \<not> isdigit (fst x))"
  proof
    fix e assume e: "e \<in> set (quintile_entry conv_len df speaker q)"
    from quintile_entry_names(1)[OF e] have "\<not> isdigit (dominant_emotion (snd e))"
      using weighted_emotions_no_digit by fastforce
    moreover from quintile_entry_names(2)[OF e] have "\<forall>x \<in> set (top_emotions (snd e)). \<not> isdigit (fst x)"
      using weighted_emotions_no_digit by blast
    ultimately show "\<not> isdigit (dominant_emotion (snd e)) \<and> (\<forall>x \<in> set (top_emotions (snd e)). \<not> isdigit (fst x))"
      by simp
  qed
  from 1 2 3 4 weighted_emotions_keys[of qd] show ?thesis by blast
qed

theorem relabel_at_aggregation_witness:
  "isdigit ''123''
   \<and> relabel ''123'' = ''Emotion_123''
   \<and> map fst (weighted_emotions (quintile_data_of numeric_name_frame ''A'' 2)) = [''Emotion_123'', ''Joy'']
   \<and> map (\<lambda>e. dominant_emotion (snd e)) (quintile_entry 10 numeric_name_frame ''A'' 2) = [''Emotion_123'']
   \<and> \<not> isdigit ''Emotion_123''"
proof -
  have d: "isdigit ''123''" by code_simp
  from relabel_at_aggregation[where n = "''123''"]
  have "isdigit ''123'' \<longrightarrow> relabel ''123'' = ''Emotion_'' @ ''123''" by blast
  with d have r: "relabel ''123'' = ''Emotion_123''" by simp
  have w: "map fst (weighted_emotions (quintile_data_of numeric_name_frame ''A'' 2)) = [''Emotion_123'', ''Joy'']"
    by code_simp
  have e: "map (\<lambda>e. dominant_emotion (snd e)) (quintile_entry 10 numeric_name_frame ''A'' 2) = [''Emotion_123'']"
    by code_simp
  have n: "\<not> isdigit ''Emotion_123''" by code_simp
  from d r w e n show ?thesis by blast
qed

text \<open>The claim as the spec states it fails: the segment of the frame, and the vocabulary,
  carry the digit-only name \<open>123\<close>.\<close>

theorem numeric_name_kept_in_table:
  "fst (process_sentiment_data unique (init_processor (Some numeric_name_payload))) = Some numeric_name_frame
   \<and> map (\<lambda>r. map fst (sentiments r)) numeric_name_frame = [[''123'', ''Joy'']]
   \<and> isdigit ''123''
   \<and> top_sentiments (snd (process_sentiment_data unique (init_processor (Some numeric_name_payload))))
       = [''123'', ''Joy'']"
  by code_simp

subsection \<open>The columns of the streamlined frame\<close>

lemma map_of_set_column: "map_of (set_column n v fr) = (map_of fr)(n \<mapsto> v)"
proof (cases "list_ex (\<lambda>kc. fst kc = n) fr")
  case True
  have "map_of (map (\<lambda>kc. if fst kc = n then (n, v) else kc) fr) k
          = (if k = n then map_option (\<lambda>_. v) (map_of fr n) else map_of fr k)" for k
    by (induction fr) auto
  moreover from True have "map_of fr n \<noteq> None"
    by (auto simp: list_ex_iff map_of_eq_None_iff image_iff)
  ultimately show ?thesis using True by (auto simp: set_column_def fun_eq_iff)
next
  case False
  then have "map_of fr n = None" by (auto simp: list_ex_iff map_of_eq_None_iff image_iff)
  then show ?thesis using False
    by (auto simp: set_column_def fun_eq_iff map_add_def split: option.splits)
qed

lemma map_of_loc_assign:
  "map_of (loc_assign ms n vals fr) k =
     (if k = n then map_option (\<lambda>col. map (\<lambda>(m, v, c). if m then v else c) (zip ms (zip vals col))) (map_of fr n)
      else map_of fr k)"
  by (induction fr) (auto simp: loc_assign_def)

lemma zip3_map:
  "map (\<lambda>(m, v, c). if m then v else c) (zip (map g xs) (zip (map h xs) (map f xs)))
     = map (\<lambda>x. if g x then h x else f x) xs"
  by (induction xs) auto

lemma slot_col_exists: "r \<in> set df \<Longrightarrow> slot r i \<noteq> None \<Longrightarrow> col_exists df i"
  by (auto simp: col_exists_def slot_def list_ex_iff split: if_splits)

lemma fill_from_slot_column:
  assumes "map_of fr name = Some (map f df)"
  shows "map_of (fill_from_slot df name i fr) name = Some (map (\<lambda>r. fill_cell name r i (f r)) df)"
proof (cases "col_exists df i")
  case True
  then show ?thesis using assms
    by (simp add: fill_from_slot_def map_of_loc_assign zip3_map fill_cell_def)
next
  case False
  then have "\<forall>r \<in> set df. slot r i = None" using slot_col_exists by blast
  then have "map (\<lambda>r. fill_cell name r i (f r)) df = map f df"
    by (simp add: fill_cell_def)
  then show ?thesis using False assms by (simp add: fill_from_slot_def)
qed

lemma fill_from_slot_other:
  "k \<noteq> name \<Longrightarrow> map_of (fill_from_slot df name i fr) k = map_of fr k"
  by (simp add: fill_from_slot_def map_of_loc_assign)

lemma fold_fill_from_slot_other:
  "k \<noteq> name \<Longrightarrow> map_of (fold (fill_from_slot df name) is fr) k = map_of fr k"
  by (induction "is" arbitrary: fr) (simp_all add: fill_from_slot_other)

lemma fold_fill_from_slot_column:
  "map_of fr name = Some (map f df) \<Longrightarrow>
   map_of (fold (fill_from_slot df name) is fr) name
     = Some (map (\<lambda>r. fold (fill_cell name r) is (f r)) df)"
proof (induction "is" arbitrary: fr f)
  case Nil
  then show ?case by simp
next
  case (Cons i "is")
  from fill_from_slot_column[OF Cons.prems]
  have "map_of (fill_from_slot df name i fr) name = Some (map (\<lambda>r. fill_cell name r i (f r)) df)" .
  from Cons.IH[OF this] show ?case by simp
qed

lemma fold_fill_cell:
  "fold (fill_cell name r) [1..<Suc k] c =
     (if filter (\<lambda>ns. fst ns = name) (take k (sentiments r)) = [] then c
      else CNum (snd (last (filter (\<lambda>ns. fst ns = name) (take k (sentiments r))))))"
proof (induction k)
  case 0
  then show ?case by simp
next
  case (Suc k)
  have upt: "[1..<Suc (Suc k)] = [1..<Suc k] @ [Suc k]" by simp
  show ?case
  proof (cases "k < length (sentiments r)")
    case True
    then have tk: "take (Suc k) (sentiments r) = take k (sentiments r) @ [sentiments r ! k]"
      by (rule take_Suc_conv_app_nth)
    have sl: "slot r (Suc k) = Some (sentiments r ! k)" using True by (simp add: slot_def)
    show ?thesis
      unfolding upt fold_append comp_apply Suc.IH tk
      by (simp add: fill_cell_def sl slot_score_cell_def)
  next
    case False
    then have tk: "take (Suc k) (sentiments r) = take k (sentiments r)" by simp
    have sl: "slot r (Suc k) = None" using False by (simp add: slot_def)
    show ?thesis
      unfolding upt fold_append comp_apply Suc.IH tk
      by (simp add: fill_cell_def sl)
  qed
qed

lemma fold_fill_cell_15:
  "fold (fill_cell name r) [1..<16] (CNum 0) = CNum (last_matching_score name r)"
proof -
  have "[1..<16] = [1..<Suc 15]" by simp
  then show ?thesis
    unfolding last_matching_score_def Let_def
    by (simp only: fold_fill_cell) simp
qed

lemma add_sentiment_column_map_of:
  "map_of (add_sentiment_column df name fr) k =
     (if k = name then Some (map (\<lambda>r. CNum (last_matching_score name r)) df) else map_of fr k)"
proof (cases "k = name")
  case True
  have "map_of (set_column name (replicate (length df) (CNum 0)) fr) name = Some (map (\<lambda>r. CNum 0) df)"
    by (simp add: map_of_set_column map_replicate_const)
  from fold_fill_from_slot_column[OF this, of "[1..<16]", unfolded fold_fill_cell_15]
  show ?thesis using True by (simp add: add_sentiment_column_def)
next
  case False
  then show ?thesis
    by (simp add: add_sentiment_column_def fold_fill_from_slot_other map_of_set_column)
qed

lemma streamlined_fold_map_of:
  "n \<in> set tops \<Longrightarrow>
   map_of (fold (add_sentiment_column df) tops fr) n = Some (map (\<lambda>r. CNum (last_matching_score n r)) df)"
proof (induction tops arbitrary: fr rule: rev_induct)
  case Nil
  then show ?case by simp
next
  case (snoc t tops)
  show ?case
  proof (cases "n = t")
    case True
    then show ?thesis by (simp add: add_sentiment_column_map_of)
  next
    case False
    with snoc.prems have "n \<in> set tops" by simp
    from snoc.IH[OF this] show ?thesis using False by (simp add: add_sentiment_column_map_of)
  qed
qed


lemma last_matching_score_none:
  assumes "\<forall>i. 1 \<le> i \<and> i \<le> 15 \<longrightarrow> map_option fst (slot r i) \<noteq> Some n"
  shows "last_matching_score n r = 0"
proof -
  have "fst ns \<noteq> n" if "ns \<in> set (take 15 (sentiments r))" for ns
  proof -
    from that obtain j where j: "j < 15" "j < length (sentiments r)" "ns = sentiments r ! j"
      unfolding set_take_nth by blast
    then have "slot r (Suc j) = Some ns" by (simp add: slot_def)
    with assms[rule_format, of "Suc j"] j(1) show ?thesis by auto
  qed
  then have "filter (\<lambda>ns. fst ns = n) (take 15 (sentiments r)) = []"
    by (auto simp: filter_empty_conv)
  then show ?thesis by (simp add: last_matching_score_def)
qed

lemma last_matching_score_last:
  assumes i: "1 \<le> i" "i \<le> 15" and s: "slot r i = Some (n, sc)"
    and later: "\<forall>j. i < j \<and> j \<le> 15 \<longrightarrow> map_option fst (slot r j) \<noteq> Some n"
  shows "last_matching_score n r = sc"
proof -
  let ?xs = "sentiments r"
  let ?ys = "take 15 ?xs"
  let ?P = "\<lambda>ns. fst ns = n"
  from s i have len: "i \<le> length ?xs" and at: "?xs ! (i - 1) = (n, sc)"
    by (auto simp: slot_def split: if_splits)
  have "take i ?ys = take i ?xs" using i by (simp add: min_def)
  also have "\<dots> = take (i - 1) ?xs @ [?xs ! (i - 1)]"
    using take_Suc_conv_app_nth[of "i - 1" ?xs] i len by simp
  finally have front: "take i ?ys = take (i - 1) ?xs @ [(n, sc)]" using at by simp
  have "fst ns \<noteq> n" if "ns \<in> set (drop i ?ys)" for ns
  proof -
    from that obtain k where k: "k < length (drop i ?ys)" "ns = drop i ?ys ! k"
      by (auto simp: in_set_conv_nth)
    then have b: "i + k < 15" "i + k < length ?xs" by auto
    with k have "ns = ?xs ! (i + k)" by simp
    with b have "slot r (Suc (i + k)) = Some ns" by (simp add: slot_def)
    with later[rule_format, of "Suc (i + k)"] b show ?thesis by auto
  qed
  then have tail_none: "filter ?P (drop i ?ys) = []" by (auto simp: filter_empty_conv)
  have "filter ?P ?ys = filter ?P (take i ?ys @ drop i ?ys)"
    by (simp only: append_take_drop_id)
  also have "\<dots> = filter ?P (take (i - 1) ?xs) @ [(n, sc)]"
    unfolding filter_append front tail_none by simp
  finally show ?thesis by (simp add: last_matching_score_def)
qed

text \<open>
  Claim C8. \<^verbatim>\<open>_create_streamlined_data\<close> stores the streamlined frame, and in it the
  column of every name of the vocabulary holds, for every row, the last matching score:
  0 when none of the slots 1 to 15 of the row carries the name, and otherwise the score
  of the matching slot of greatest index (later slots overwrite earlier ones). Since the
  slots are sorted by descending score this is not the greatest matching score.
\<close>

theorem last_match_wins:
  assumes "n \<in> set (top_sentiments self)"
  shows "processed_data (create_streamlined_data df self)
           = Some (Streamlined (streamlined_frame (top_sentiments self) df))
       \<and> map_of (streamlined_frame (top_sentiments self) df) n
           = Some (map (\<lambda>r. CNum (last_matching_score n r)) df)
       \<and> (\<forall>r. (\<forall>i. 1 \<le> i \<and> i \<le> 15 \<longrightarrow> map_option fst (slot r i) \<noteq> Some n)
              \<longrightarrow> last_matching_score n r = 0)
       \<and> (\<forall>r i sc. 1 \<le> i \<and> i \<le> 15 \<and> slot r i = Some (n, sc)
                     \<and> (\<forall>j. i < j \<and> j \<le> 15 \<longrightarrow> map_option fst (slot r j) \<noteq> Some n)
              \<longrightarrow> last_matching_score n r = sc)"
proof -
  have 1: "processed_data (create_streamlined_data df self)
           = Some (Streamlined (streamlined_frame (top_sentiments self) df))"
    by (simp add: create_streamlined_data_def)
  have 2: "map_of (streamlined_frame (top_sentiments self) df) n
           = Some (map (\<lambda>r. CNum (last_matching_score n r)) df)"
    unfolding streamlined_frame_def using assms by (rule streamlined_fold_map_of)
  from 1 2 last_matching_score_none last_matching_score_last show ?thesis by blast
qed

text \<open>A row with Joy 0.8 in slot 1 and Joy 0.4 in slot 2 has 0.4 in the column Joy.\<close>

theorem last_match_wins_witness:
  "''Joy'' \<in> set (top_sentiments ((init_processor None)\<lparr>top_sentiments := [''Joy'', ''Calm'']\<rparr>))
   \<and> map_of (streamlined_frame [''Joy'', ''Calm''] duplicate_name_frame) ''Joy'' = Some [CNum (2 / 5)]
   \<and> map (\<lambda>r. filter (\<lambda>ns. fst ns = ''Joy'') (sentiments r)) duplicate_name_frame
       = [[(''Joy'', 4 / 5), (''Joy'', 2 / 5)]]
   \<and> map_option (\<lambda>x. (fst x, processed_data (snd x)))
        (streamlined_stage unique (init_processor (Some duplicate_name_payload)))
       = Some (duplicate_name_frame, Some (Streamlined
           [(''speaker_id'', [CStr ''A'']), (''start_time'', [CNum 0]), (''end_time'', [CNum 10]),
            (''text'', [CStr []]), (''quintile'', [CInt 2]),
            (''Joy'', [CNum (2 / 5)]), (''Calm'', [CNum (1 / 5)])]))"
proof -
  let ?self = "(init_processor None)\<lparr>top_sentiments := [''Joy'', ''Calm'']\<rparr>"
  have h: "''Joy'' \<in> set (top_sentiments ?self)" by simp
  have t: "top_sentiments ?self = [''Joy'', ''Calm'']" by simp
  have l: "map (\<lambda>r. CNum (last_matching_score ''Joy'' r)) duplicate_name_frame = [CNum (2 / 5)]"
    by code_simp
  have f: "map (\<lambda>r. filter (\<lambda>ns. fst ns = ''Joy'') (sentiments r)) duplicate_name_frame
       = [[(''Joy'', 4 / 5), (''Joy'', 2 / 5)]]" by code_simp
  have p: "map_option (\<lambda>x. (fst x, processed_data (snd x)))
        (streamlined_stage unique (init_processor (Some duplicate_name_payload)))
       = Some (duplicate_name_frame, Some (Streamlined
           [(''speaker_id'', [CStr ''A'']), (''start_time'', [CNum 0]), (''end_time'', [CNum 10]),
            (''text'', [CStr []]), (''quintile'', [CInt 2]),
            (''Joy'', [CNum (2 / 5)]), (''Calm'', [CNum (1 / 5)])]))" by code_simp
  from last_match_wins[OF h, of duplicate_name_frame]
  have "map_of (streamlined_frame (top_sentiments ?self) duplicate_name_frame) ''Joy''
          = Some (map (\<lambda>r. CNum (last_matching_score ''Joy'' r)) duplicate_name_frame)" by blast
  then have m: "map_of (streamlined_frame [''Joy'', ''Calm''] duplicate_name_frame) ''Joy'' = Some [CNum (2 / 5)]"
    unfolding t l .
  from h m f p show ?thesis by blast
qed

subsection \<open>The vocabulary\<close>

lemma length_filter_sum: "length (filter P xs) = sum_list (map (\<lambda>x. if P x then 1 else 0) xs)"
  by (induction xs) auto

lemma sum_list_swap:
  "sum_list (map (\<lambda>i. length (filter (P i) xs)) is)
     = sum_list (map (\<lambda>x. sum_list (map (\<lambda>i. if P i x then 1 else 0) is)) xs)"
proof (induction xs)
  case Nil
  then show ?case by simp
next
  case (Cons x xs)
  have "sum_list (map (\<lambda>i. length (filter (P i) (x # xs))) is)
      = sum_list (map (\<lambda>i. (if P i x then 1 else 0) + length (filter (P i) xs)) is)"
    by (intro arg_cong[where f = sum_list] map_cong) auto
  also have "\<dots> = sum_list (map (\<lambda>i. if P i x then 1 else 0) is)
                   + sum_list (map (\<lambda>i. length (filter (P i) xs)) is)"
    by (rule sum_list_addf)
  finally show ?case using Cons.IH by simp
qed

lemma slot_count_row:
  "sum_list (map (\<lambda>i. if map_option fst (slot r i) = Some n then 1 else 0) [1..<Suc k])
     = count_list (map fst (take k (sentiments r))) n"
proof (induction k)
  case 0
  then show ?case by simp
next
  case (Suc k)
  have upt: "[1..<Suc (Suc k)] = [1..<Suc k] @ [Suc k]" by simp
  show ?case
  proof (cases "k < length (sentiments r)")
    case True
    then have tk: "take (Suc k) (sentiments r) = take k (sentiments r) @ [sentiments r ! k]"
      by (rule take_Suc_conv_app_nth)
    have sl: "slot r (Suc k) = Some (sentiments r ! k)" using True by (simp add: slot_def)
    show ?thesis
      unfolding upt map_append sum_list_append Suc.IH tk
      by (cases "sentiments r ! k") (simp add: sl)
  next
    case False
    then have tk: "take (Suc k) (sentiments r) = take k (sentiments r)" by simp
    have sl: "slot r (Suc k) = None" using False by (simp add: slot_def)
    show ?thesis
      unfolding upt map_append sum_list_append Suc.IH tk
      by (simp add: sl)
  qed
qed

lemma count_list_concat: "count_list (concat xss) n = sum_list (map (\<lambda>xs. count_list xs n) xss)"
  by (induction xss) simp_all

lemma no_col_no_match:
  "\<not> col_exists df i \<Longrightarrow> filter (\<lambda>r. map_option fst (slot r i) = Some n) df = []"
  by (auto simp: filter_empty_conv col_exists_def list_ex_iff slot_def)

lemma sentiment_count_occurrences: "sentiment_count df n = occurrences df n"
proof -
  have "sentiment_count df n
      = sum_list (map (\<lambda>i. length (filter (\<lambda>r. map_option fst (slot r i) = Some n) df)) [1..<16])"
    unfolding sentiment_count_def
    using no_col_no_match[of df _ n]
    by (intro arg_cong[where f = sum_list] map_cong refl) auto
  also have "\<dots> = sum_list (map (\<lambda>r. sum_list (map (\<lambda>i. if map_option fst (slot r i) = Some n then 1 else 0) [1..<16])) df)"
    by (rule sum_list_swap)
  also have "\<dots> = sum_list (map (\<lambda>r. count_list (map fst (take 15 (sentiments r))) n) df)"
    using slot_count_row[of _ n 15] by simp
  also have "\<dots> = occurrences df n"
    by (simp add: occurrences_def slot_names_def count_list_concat comp_def)
  finally show ?thesis .
qed

lemma set_unique: "set (unique xs) = set xs"
  by (simp add: unique_def)

lemma set_column_names:
  "set (column_names df i) = {n. \<exists>r \<in> set df. map_option fst (slot r i) = Some n}"
proof -
  have "set (List.map_filter f xs) = {y. \<exists>x \<in> set xs. f x = Some y}" for f :: "row \<Rightarrow> string option" and xs
    by (induction xs) (auto split: option.splits)
  then show ?thesis by (simp add: column_names_def)
qed

lemma no_col_no_names: "\<not> col_exists df i \<Longrightarrow> column_names df i = []"
  by (auto simp: column_names_def map_filter_def filter_empty_conv col_exists_def list_ex_iff slot_def)

lemma set_all_sentiments_inserted: "set (all_sentiments_inserted df) = set (slot_names df)"
proof -
  have "set (if col_exists df i then unique (column_names df i) else []) = set (column_names df i)" for i
    using no_col_no_names[of df i] by (cases "col_exists df i") (simp_all add: set_unique)
  then have "set (all_sentiments_inserted df) = (\<Union>i \<in> set [1..<16]. set (column_names df i))"
    unfolding all_sentiments_inserted_def set_concat set_map by blast
  also have "\<dots> = (\<Union>r \<in> set df. fst ` {ns. \<exists>i \<in> set [1..<16]. slot r i = Some ns})"
    unfolding set_column_names by force
  also have "\<dots> = set (slot_names df)"
    unfolding slots_take by (auto simp: slot_names_def)
  finally show ?thesis .
qed


lemma sentiment_counts_fst: "map fst (sentiment_counts enum df) = enum (all_sentiments_inserted df)"
  by (simp add: sentiment_counts_def comp_def)

lemma sentiment_counts_snd:
  "x \<in> set (sentiment_counts enum df) \<Longrightarrow> snd x = occurrences df (fst x)"
  by (auto simp: sentiment_counts_def sentiment_count_occurrences)

lemma sorted_counts_desc:
  "sorted_wrt (\<lambda>x y. snd y \<le> snd x) (sort_key (\<lambda>x. - int (snd x)) (xs :: (string \<times> nat) list))"
proof -
  have "sorted (map (\<lambda>x. - int (snd x)) (sort_key (\<lambda>x. - int (snd x)) xs))"
    by (rule sorted_sort_key)
  then show ?thesis by (simp add: sorted_map)
qed

lemma valid_enum_unique: "valid_enum unique"
  by (simp add: valid_enum_def unique_def)

lemma process_top_sentiments:
  "fst (process_sentiment_data enum self) = Some df \<Longrightarrow>
   top_sentiments (snd (process_sentiment_data enum self)) = compute_top_sentiments enum df"
  by (auto simp: process_sentiment_data_def streamlined_stage_def Let_def create_streamlined_data_def
      analyze_quintiles_def split: if_splits option.splits)

text \<open>
  Claim C5. For every iteration order of the set of names: the count the source computes
  for a name is the number of its occurrences over the occupied slots 1 to 15 of all
  segments (a name in two slots of one segment counts twice); the vocabulary has at most
  15 names, namely 15 or all of the occurring names if there are fewer, without
  repetition; it is ordered by descending count; and no name left out occurs more often
  than a name kept. The run stores this list in \<^verbatim>\<open>top_sentiments\<close>.
\<close>

theorem vocabulary_top15:
  assumes "valid_enum enum"
  shows "(\<forall>n. sentiment_count df n = occurrences df n)
       \<and> length (compute_top_sentiments enum df) \<le> 15
       \<and> length (compute_top_sentiments enum df) = min 15 (card (set (slot_names df)))
       \<and> distinct (compute_top_sentiments enum df)
       \<and> set (compute_top_sentiments enum df) \<subseteq> set (slot_names df)
       \<and> sorted_wrt (\<lambda>a b. occurrences df b \<le> occurrences df a) (compute_top_sentiments enum df)
       \<and> (\<forall>a \<in> set (compute_top_sentiments enum df).
            \<forall>b \<in> set (slot_names df) - set (compute_top_sentiments enum df).
              occurrences df b \<le> occurrences df a)
       \<and> (fst (process_sentiment_data enum self) = Some df \<longrightarrow>
            top_sentiments (snd (process_sentiment_data enum self)) = compute_top_sentiments enum df)"
proof -
  let ?key = "\<lambda>x :: string \<times> nat. - int (snd x)"
  let ?C = "sentiment_counts enum df"
  let ?L = "sort_key ?key ?C"
  let ?V = "compute_top_sentiments enum df"
  let ?E = "enum (all_sentiments_inserted df)"
  have V: "?V = map fst (take 15 ?L)" by (simp add: compute_top_sentiments_def)
  from assms have E: "set ?E = set (slot_names df)" "distinct ?E"
    by (simp_all add: valid_enum_def set_all_sentiments_inserted)
  have msetL: "mset (map fst ?L) = mset ?E"
    by (simp add: sentiment_counts_fst[symmetric])
  then have setL: "set (map fst ?L) = set (slot_names df)" using E(1) by (metis set_mset_mset)
  have distL: "distinct (map fst ?L)" using msetL E(2) by (metis mset_eq_imp_distinct_iff)
  have lenL: "length ?L = card (set (slot_names df))"
    using E by (simp add: sentiment_counts_def distinct_card[symmetric])
  have snd_occ: "snd x = occurrences df (fst x)" if "x \<in> set ?L" for x
    using that by (simp add: sentiment_counts_snd)
  have 1: "\<forall>n. sentiment_count df n = occurrences df n"
    by (simp add: sentiment_count_occurrences)
  have 2: "length ?V \<le> 15" by (simp add: V)
  have 3: "length ?V = min 15 (card (set (slot_names df)))"
    using lenL by (simp add: V min_def)
  have 4: "distinct ?V"
    unfolding V take_map[symmetric] using distL by (rule distinct_take)
  have 5: "set ?V \<subseteq> set (slot_names df)"
    unfolding V take_map[symmetric] using setL set_take_subset[of 15 "map fst ?L"] by blast
  have sortedL: "sorted_wrt (\<lambda>x y. snd y \<le> snd x) ?L" by (rule sorted_counts_desc)
  have "sorted_wrt (\<lambda>x y. snd y \<le> snd x) (take 15 ?L)"
    using sortedL by (rule sorted_wrt_take)
  then have "sorted_wrt (\<lambda>x y. occurrences df (fst y) \<le> occurrences df (fst x)) (take 15 ?L)"
  proof (rule sorted_wrt_mono_rel[rotated])
    fix x y assume "x \<in> set (take 15 ?L)" "y \<in> set (take 15 ?L)" "snd y \<le> snd x"
    then show "occurrences df (fst y) \<le> occurrences df (fst x)"
      using snd_occ by (metis in_set_takeD)
  qed
  then have 6: "sorted_wrt (\<lambda>a b. occurrences df b \<le> occurrences df a) ?V"
    by (simp add: V sorted_wrt_map)
  have 7: "\<forall>a \<in> set ?V. \<forall>b \<in> set (slot_names df) - set ?V. occurrences df b \<le> occurrences df a"
  proof (intro ballI)
    fix a b assume a: "a \<in> set ?V" and b: "b \<in> set (slot_names df) - set ?V"
    from a obtain x where x: "x \<in> set (take 15 ?L)" "a = fst x" by (auto simp: V)
    have "set (map fst ?L) = set (map fst (take 15 ?L)) \<union> set (map fst (drop 15 ?L))"
      by (metis append_take_drop_id map_append set_append)
    with b setL obtain y where y: "y \<in> set (drop 15 ?L)" "b = fst y" by (auto simp: V)
    have "sorted_wrt (\<lambda>x y. snd y \<le> snd x) (take 15 ?L @ drop 15 ?L)" using sortedL by simp
    then have "snd y \<le> snd x" using x(1) y(1) unfolding sorted_wrt_append by blast
    moreover have "x \<in> set ?L" "y \<in> set ?L" using x(1) y(1) by (auto dest: in_set_takeD in_set_dropD)
    ultimately show "occurrences df b \<le> occurrences df a"
      using snd_occ x(2) y(2) by simp
  qed
  from 1 2 3 4 5 6 7 process_top_sentiments[of enum self df] show ?thesis by blast
qed

text \<open>Joy fills two slots of the one segment and counts twice.\<close>

theorem vocabulary_top15_witness:
  "valid_enum unique
   \<and> slot_names duplicate_name_frame = [''Joy'', ''Joy'', ''Calm'']
   \<and> sentiment_count duplicate_name_frame ''Joy'' = 2
   \<and> occurrences duplicate_name_frame ''Calm'' = 1
   \<and> fst (process_sentiment_data unique (init_processor (Some duplicate_name_payload))) = Some duplicate_name_frame
   \<and> top_sentiments (snd (process_sentiment_data unique (init_processor (Some duplicate_name_payload))))
       = [''Joy'', ''Calm'']"
proof -
  let ?self = "init_processor (Some duplicate_name_payload)"
  have s: "slot_names duplicate_name_frame = [''Joy'', ''Joy'', ''Calm'']" by code_simp
  have o: "occurrences duplicate_name_frame ''Joy'' = 2" "occurrences duplicate_name_frame ''Calm'' = 1"
    by code_simp+
  have c: "compute_top_sentiments unique duplicate_name_frame = [''Joy'', ''Calm'']" by code_simp
  have r: "fst (process_sentiment_data unique ?self) = Some duplicate_name_frame" by code_simp
  from vocabulary_top15[OF valid_enum_unique, of duplicate_name_frame ?self]
  have "sentiment_count duplicate_name_frame ''Joy'' = occurrences duplicate_name_frame ''Joy''"
    and "fst (process_sentiment_data unique ?self) = Some duplicate_name_frame \<longrightarrow>
         top_sentiments (snd (process_sentiment_data unique ?self))
           = compute_top_sentiments unique duplicate_name_frame"
    by blast+
  with o c r valid_enum_unique s show ?thesis by simp
qed

subsection \<open>Collecting the segments of the two channels\<close>

lemma fold_add_prosody_span:
  "fold (add_prosody_span sid) sps data = data @ map (prosody_segment_data sid) sps"
  by (induction sps arbitrary: data) (simp_all add: add_prosody_span_def)

lemma add_prosody_group_append: "add_prosody_group g data = data @ group_prosody_segments g"
  by (simp add: add_prosody_group_def group_prosody_segments_def fold_add_prosody_span
      split: option.splits)

lemma fold_add_prosody_group:
  "fold add_prosody_group gs data = data @ concat (map group_prosody_segments gs)"
  by (induction gs arbitrary: data) (simp_all add: add_prosody_group_append)

lemma add_prosody_append: "add_prosody r data = data @ prosody_segments_of r"
  by (simp add: add_prosody_def prosody_segments_of_def fold_add_prosody_group split: option.splits)

lemma speaker_id_language_segment: "speaker_id (language_segment_data sid sp) = sid"
  by (simp add: language_segment_data_def build_segment_data_def)

lemma add_language_span_key:
  "add_language_span sid sp data =
     (if seg_key (language_segment_data sid sp) \<in> seg_key ` set data then data
      else data @ [language_segment_data sid sp])"
proof -
  have "list_ex (\<lambda>d. speaker_id d = sid \<and> start_time d = start_time (language_segment_data sid sp)
                      \<and> end_time d = end_time (language_segment_data sid sp)) data
        \<longleftrightarrow> seg_key (language_segment_data sid sp) \<in> seg_key ` set data"
    by (auto simp: list_ex_iff seg_key_def speaker_id_language_segment image_iff)
  then show ?thesis by (simp add: add_language_span_def Let_def)
qed

lemma fresh_keys_Nil: "fresh_keys data []"
  by (simp add: fresh_keys_def)

lemma fresh_keys_iff:
  "fresh_keys data new \<longleftrightarrow>
     distinct (map seg_key new) \<and> seg_key ` set new \<inter> seg_key ` set data = {}"
proof -
  have "list_all (\<lambda>l. \<not> List.member (map seg_key data) (seg_key l)) new
          \<longleftrightarrow> (\<forall>l \<in> set new. seg_key l \<notin> seg_key ` set data)"
    by (simp add: list_all_iff)
  also have "\<dots> \<longleftrightarrow> seg_key ` set new \<inter> seg_key ` set data = {}" by blast
  finally show ?thesis by (simp add: fresh_keys_def)
qed

lemma add_language_span_fresh:
  assumes "fresh_keys data new"
  shows "\<exists>new'. add_language_span sid sp (data @ new) = data @ new'
            \<and> fresh_keys data new'
            \<and> set new' \<subseteq> insert (language_segment_data sid sp) (set new)"
proof (cases "seg_key (language_segment_data sid sp) \<in> seg_key ` set (data @ new)")
  case True
  then have "add_language_span sid sp (data @ new) = data @ new"
    by (simp add: add_language_span_key)
  with assms show ?thesis by blast
next
  case False
  then have "add_language_span sid sp (data @ new) = data @ (new @ [language_segment_data sid sp])"
    by (simp add: add_language_span_key)
  moreover have "fresh_keys data (new @ [language_segment_data sid sp])"
    using assms False by (auto simp: fresh_keys_iff)
  ultimately show ?thesis by auto
qed

lemma fold_add_language_span_fresh:
  assumes "fresh_keys data new"
  shows "\<exists>new'. fold (add_language_span sid) sps (data @ new) = data @ new'
            \<and> fresh_keys data new'
            \<and> set new' \<subseteq> set (map (language_segment_data sid) sps) \<union> set new"
  using assms
proof (induction sps arbitrary: new)
  case Nil
  then show ?case by auto
next
  case (Cons sp sps)
  from add_language_span_fresh[OF Cons.prems, of sid sp]
  obtain n1 where n1: "add_language_span sid sp (data @ new) = data @ n1" "fresh_keys data n1"
    "set n1 \<subseteq> insert (language_segment_data sid sp) (set new)" by blast
  from Cons.IH[OF n1(2)] obtain n2 where n2: "fold (add_language_span sid) sps (data @ n1) = data @ n2"
    "fresh_keys data n2" "set n2 \<subseteq> set (map (language_segment_data sid) sps) \<union> set n1" by blast
  have "fold (add_language_span sid) (sp # sps) (data @ new) = data @ n2"
    using n1(1) n2(1) by simp
  moreover have "set n2 \<subseteq> set (map (language_segment_data sid) (sp # sps)) \<union> set new"
    using n1(3) n2(3) by auto
  ultimately show ?case using n2(2) by blast
qed

lemma add_language_group_fresh:
  assumes "fresh_keys data new"
  shows "\<exists>new'. add_language_group g (data @ new) = data @ new'
            \<and> fresh_keys data new'
            \<and> set new' \<subseteq> set (group_language_segments g) \<union> set new"
proof (cases "group_predictions g")
  case None
  then show ?thesis using assms by (auto simp: add_language_group_def)
next
  case (Some sps)
  from fold_add_language_span_fresh[OF assms, of "speaker_of g" sps]
  show ?thesis using Some by (simp add: add_language_group_def group_language_segments_def)
qed

lemma fold_add_language_group_fresh:
  assumes "fresh_keys data new"
  shows "\<exists>new'. fold add_language_group gs (data @ new) = data @ new'
            \<and> fresh_keys data new'
            \<and> set new' \<subseteq> set (concat (map group_language_segments gs)) \<union> set new"
  using assms
proof (induction gs arbitrary: new)
  case Nil
  then show ?case by auto
next
  case (Cons g gs)
  from add_language_group_fresh[OF Cons.prems, of g]
  obtain n1 where n1: "add_language_group g (data @ new) = data @ n1" "fresh_keys data n1"
    "set n1 \<subseteq> set (group_language_segments g) \<union> set new" by blast
  from Cons.IH[OF n1(2)] obtain n2 where n2: "fold add_language_group gs (data @ n1) = data @ n2"
    "fresh_keys data n2" "set n2 \<subseteq> set (concat (map group_language_segments gs)) \<union> set n1" by blast
  have "fold add_language_group (g # gs) (data @ new) = data @ n2"
    using n1(1) n2(1) by simp
  moreover have "set n2 \<subseteq> set (concat (map group_language_segments (g # gs))) \<union> set new"
    using n1(3) n2(3) by auto
  ultimately show ?case using n2(2) by blast
qed

lemma add_language_fresh:
  "\<exists>new. add_language r data = data @ new \<and> fresh_keys data new
          \<and> set new \<subseteq> set (language_segments_of r)"
proof (cases "language r")
  case None
  then show ?thesis by (simp add: add_language_def fresh_keys_Nil)
next
  case (Some gs)
  from fold_add_language_group_fresh[OF fresh_keys_Nil, where data = data and gs = gs]
  show ?thesis using Some by (simp add: add_language_def language_segments_of_def)
qed

lemma add_result_item_fresh:
  "\<exists>new. add_result_item r data = data @ prosody_segments_of r @ new
          \<and> fresh_keys (data @ prosody_segments_of r) new
          \<and> set new \<subseteq> set (language_segments_of r)"
  using add_language_fresh[of r "data @ prosody_segments_of r"]
  by (simp add: add_result_item_def add_prosody_append)

text \<open>
  Claim C6, as the code has it. A language span whose key (speaker, start, end) is the key
  of a segment collected before it is dropped: the data stay as they are, nothing is
  merged. A result item appends all its prosody segments and then those of its language
  segments that bring a new key, so the segments it contributes hold no language segment
  with the key of one of its prosody segments; for a payload of one result item that is
  the whole table.
\<close>

theorem language_duplicate_dropped:
  "(seg_key (language_segment_data sid sp) \<in> seg_key ` set data
      \<longrightarrow> add_language_span sid sp data = data)
   \<and> (\<exists>new. add_result_item r data = data @ prosody_segments_of r @ new
          \<and> set new \<subseteq> set (language_segments_of r)
          \<and> fresh_keys (data @ prosody_segments_of r) new
          \<and> (\<forall>l \<in> set new. \<forall>p \<in> set (prosody_segments_of r). seg_key l \<noteq> seg_key p))
   \<and> (\<exists>new. extract_segments [\<lparr>results_predictions = Some [r]\<rparr>] = prosody_segments_of r @ new
          \<and> set new \<subseteq> set (language_segments_of r)
          \<and> (\<forall>l \<in> set new. \<forall>p \<in> set (prosody_segments_of r). seg_key l \<noteq> seg_key p))"
proof -
  have 1: "seg_key (language_segment_data sid sp) \<in> seg_key ` set data
      \<longrightarrow> add_language_span sid sp data = data"
    by (simp add: add_language_span_key)
  have item: "\<exists>new. add_result_item r d = d @ prosody_segments_of r @ new
          \<and> set new \<subseteq> set (language_segments_of r)
          \<and> fresh_keys (d @ prosody_segments_of r) new
          \<and> (\<forall>l \<in> set new. \<forall>p \<in> set (prosody_segments_of r). seg_key l \<noteq> seg_key p)" for d
  proof -
    from add_result_item_fresh[of r d] obtain new where
      n: "add_result_item r d = d @ prosody_segments_of r @ new"
         "fresh_keys (d @ prosody_segments_of r) new" "set new \<subseteq> set (language_segments_of r)"
      by blast
    from n(2) have "\<forall>l \<in> set new. \<forall>p \<in> set (prosody_segments_of r). seg_key l \<noteq> seg_key p"
      unfolding fresh_keys_iff by auto
    with n show ?thesis by blast
  qed
  have ex: "extract_segments [\<lparr>results_predictions = Some [r]\<rparr>] = add_result_item r []"
    by (simp add: extract_segments_def add_pred_item_def)
  from item[of "[]"] have 3: "\<exists>new. extract_segments [\<lparr>results_predictions = Some [r]\<rparr>] = prosody_segments_of r @ new
          \<and> set new \<subseteq> set (language_segments_of r)
          \<and> (\<forall>l \<in> set new. \<forall>p \<in> set (prosody_segments_of r). seg_key l \<noteq> seg_key p)"
    unfolding ex by auto
  from 1 item[of data] 3 show ?thesis by blast
qed

theorem language_duplicate_dropped_witness:
  "seg_key (language_segment_data ''A'' (timed_span 0 10 [emotion ''Positive'' (9 / 10)]))
     \<in> seg_key ` set (prosody_segments_of both_channels_item)
   \<and> add_language_span ''A'' (timed_span 0 10 [emotion ''Positive'' (9 / 10)])
        (prosody_segments_of both_channels_item) = prosody_segments_of both_channels_item
   \<and> map (\<lambda>d. (seg_key d, sentiments d))
        (extract_segments [\<lparr>results_predictions = Some [both_channels_item]\<rparr>])
       = [((''A'', 0, 10), [(''Joy'', 4 / 5)]), ((''A'', 10, 20), [(''Neutral'', 1 / 2)])]"
proof -
  let ?sp = "timed_span 0 10 [emotion ''Positive'' (9 / 10)]"
  have k: "map seg_key (prosody_segments_of both_channels_item) = [(''A'', 0, 10)]" by code_simp
  have l: "seg_key (language_segment_data ''A'' ?sp) = (''A'', 0, 10)" by code_simp
  have h: "seg_key (language_segment_data ''A'' ?sp) \<in> seg_key ` set (prosody_segments_of both_channels_item)"
    unfolding l using k by (metis list.set_intros(1) set_map)
  from language_duplicate_dropped[of "''A''" ?sp "prosody_segments_of both_channels_item"] h
  have d: "add_language_span ''A'' ?sp (prosody_segments_of both_channels_item)
             = prosody_segments_of both_channels_item" by blast
  have e: "map (\<lambda>d. (seg_key d, sentiments d))
        (extract_segments [\<lparr>results_predictions = Some [both_channels_item]\<rparr>])
       = [((''A'', 0, 10), [(''Joy'', 4 / 5)]), ((''A'', 10, 20), [(''Neutral'', 1 / 2)])]"
    by code_simp
  from h d e show ?thesis by blast
qed

text \<open>The claim as the spec states it fails when the language span comes first, in an
  earlier result item: the prosody span of the same key is appended all the same, and the
  table has two segments of that key, one of each channel.\<close>

theorem prosody_after_language_kept:
  "map_option (map (\<lambda>r. (seg_key (segment_data.truncate r), sentiments r)))
     (fst (process_sentiment_data unique (init_processor (Some cross_item_payload))))
   = Some [((''A'', 0, 10), [(''Positive'', 9 / 10)]), ((''A'', 0, 10), [(''Joy'', 4 / 5)])]"
  by code_simp

subsection \<open>Deduplication in the language channel only\<close>

lemma add_language_span_distinct:
  "distinct (map seg_key data) \<Longrightarrow> distinct (map seg_key (add_language_span sid sp data))"
  by (simp add: add_language_span_key)

lemma mset_add_result_item:
  "mset data + mset (prosody_segments_of r) \<subseteq># mset (add_result_item r data)"
proof -
  from add_result_item_fresh[of r data] obtain new
    where "add_result_item r data = data @ prosody_segments_of r @ new" by blast
  then show ?thesis by simp
qed

lemma mset_fold_add_result_item:
  "mset data + mset (concat (map prosody_segments_of rs)) \<subseteq># mset (fold add_result_item rs data)"
proof (induction rs arbitrary: data)
  case Nil
  then show ?case by simp
next
  case (Cons r rs)
  have "mset data + mset (concat (map prosody_segments_of (r # rs)))
      = (mset data + mset (prosody_segments_of r)) + mset (concat (map prosody_segments_of rs))"
    by simp
  also have "\<dots> \<subseteq># mset (add_result_item r data) + mset (concat (map prosody_segments_of rs))"
    using mset_add_result_item[of data r] by (simp only: subset_mset.add_right_mono)
  also have "\<dots> \<subseteq># mset (fold add_result_item rs (add_result_item r data))"
    by (rule Cons.IH)
  finally show ?case by simp
qed

lemma mset_add_pred_item:
  "mset data + mset (case results_predictions p of None \<Rightarrow> []
                      | Some rs \<Rightarrow> concat (map prosody_segments_of rs))
     \<subseteq># mset (add_pred_item p data)"
  using mset_fold_add_result_item
  by (cases "results_predictions p") (simp_all add: add_pred_item_def)

lemma mset_fold_add_pred_item:
  "mset data + mset (all_prosody_segments ps) \<subseteq># mset (fold add_pred_item ps data)"
proof (induction ps arbitrary: data)
  case Nil
  then show ?case by (simp add: all_prosody_segments_def)
next
  case (Cons p ps)
  let ?pp = "case results_predictions p of None \<Rightarrow> [] | Some rs \<Rightarrow> concat (map prosody_segments_of rs)"
  have "mset data + mset (all_prosody_segments (p # ps))
      = (mset data + mset ?pp) + mset (all_prosody_segments ps)"
    by (simp add: all_prosody_segments_def)
  also have "\<dots> \<subseteq># mset (add_pred_item p data) + mset (all_prosody_segments ps)"
    using mset_add_pred_item[of data p] by (simp only: subset_mset.add_right_mono)
  also have "\<dots> \<subseteq># mset (fold add_pred_item ps (add_pred_item p data))"
    by (rule Cons.IH)
  finally show ?case by simp
qed

lemma truncate_with_quintile: "segment_data.truncate (with_quintile L d) = d"
  by (simp add: with_quintile_def segment_data.truncate_def)

lemma frame_segments:
  assumes "fst (process_sentiment_data enum self) = Some df"
  shows "mset (map segment_data.truncate df) = mset (extract_data (predictions self))"
proof -
  from process_Some_df(1)[OF assms]
  have "map segment_data.truncate df = sort_values_start_time (extract_data (predictions self))"
    by (simp add: comp_def truncate_with_quintile)
  then show ?thesis by (simp add: sort_values_start_time_def)
qed

text \<open>
  Claim C10. A language span is appended unless its key is the key of some segment
  collected so far, whichever channel that came from; so it never adds a key a second
  time. A prosody group is appended as it is, without any check. Hence every prosody
  segment of the payload is in the collected data, and in the frame of the run, as often
  as the payload has it: two prosody spans of one key both appear.
\<close>

theorem dedup_only_language:
  "add_language_span sid sp data =
     (if seg_key (language_segment_data sid sp) \<in> seg_key ` set data then data
      else data @ [language_segment_data sid sp])
   \<and> (distinct (map seg_key data) \<longrightarrow> distinct (map seg_key (add_language_span sid sp data)))
   \<and> add_prosody_group g data = data @ group_prosody_segments g
   \<and> mset (all_prosody_segments ps) \<subseteq># mset (extract_segments ps)
   \<and> (predictions self = Some (PredList ps) \<and> fst (process_sentiment_data enum self) = Some df
        \<longrightarrow> mset (all_prosody_segments ps) \<subseteq># mset (map segment_data.truncate df))"
proof -
  have 4: "mset (all_prosody_segments ps) \<subseteq># mset (extract_segments ps)"
    using mset_fold_add_pred_item[of "[]" ps] by (simp add: extract_segments_def)
  have 5: "predictions self = Some (PredList ps) \<and> fst (process_sentiment_data enum self) = Some df
        \<longrightarrow> mset (all_prosody_segments ps) \<subseteq># mset (map segment_data.truncate df)"
    using 4 frame_segments[of enum self df] by (auto simp: extract_data_def)
  from add_language_span_key[of sid sp data] add_language_span_distinct[of data sid sp]
    add_prosody_group_append[of g data] 4 5
  show ?thesis by blast
qed

text \<open>Two prosody spans of speaker A at \<open>[0s,10s]\<close> give two rows; two language spans of
  one key give one.\<close>

theorem dedup_only_language_witness:
  "distinct (map seg_key (prosody_segments_of both_channels_item))
   \<and> distinct (map seg_key (add_language_span ''A'' (timed_span 0 10 [emotion ''Positive'' (9 / 10)])
                               (prosody_segments_of both_channels_item)))
   \<and> predictions (init_processor (Some twin_prosody_payload)) = Some twin_prosody_payload
   \<and> map_option (map (\<lambda>r. (seg_key (segment_data.truncate r), sentiments r)))
        (fst (process_sentiment_data unique (init_processor (Some twin_prosody_payload))))
       = Some [((''A'', 0, 10), [(''Joy'', 4 / 5)]), ((''A'', 0, 10), [(''Calm'', 3 / 5)])]
   \<and> map (\<lambda>d. (seg_key d, sentiments d))
        (extract_segments [\<lparr>results_predictions = Some
           [\<lparr>prosody = None, language = Some [group_of ''A''
              [timed_span 0 10 [emotion ''Positive'' (9 / 10)],
               timed_span 0 10 [emotion ''Negative'' (1 / 10)]]]\<rparr>]\<rparr>])
       = [((''A'', 0, 10), [(''Positive'', 9 / 10)])]"
proof -
  let ?data = "prosody_segments_of both_channels_item"
  have h: "distinct (map seg_key ?data)" by code_simp
  from dedup_only_language[of "''A''" "timed_span 0 10 [emotion ''Positive'' (9 / 10)]" ?data] h
  have d: "distinct (map seg_key (add_language_span ''A'' (timed_span 0 10 [emotion ''Positive'' (9 / 10)]) ?data))"
    by blast
  have p: "predictions (init_processor (Some twin_prosody_payload)) = Some twin_prosody_payload"
    by (simp add: init_processor_def)
  have t: "map_option (map (\<lambda>r. (seg_key (segment_data.truncate r), sentiments r)))
        (fst (process_sentiment_data unique (init_processor (Some twin_prosody_payload))))
       = Some [((''A'', 0, 10), [(''Joy'', 4 / 5)]), ((''A'', 0, 10), [(''Calm'', 3 / 5)])]"
    by code_simp
  have l: "map (\<lambda>d. (seg_key d, sentiments d))
        (extract_segments [\<lparr>results_predictions = Some
           [\<lparr>prosody = None, language = Some [group_of ''A''
              [timed_span 0 10 [emotion ''Positive'' (9 / 10)],
               timed_span 0 10 [emotion ''Negative'' (1 / 10)]]]\<rparr>]\<rparr>])
       = [((''A'', 0, 10), [(''Positive'', 9 / 10)])]"
    by code_simp
  from h d p t l show ?thesis by blast
qed

subsection \<open>Determinism of a run\<close>

text \<open>A run reads \<^verbatim>\<open>self.conversation_length\<close> and \<^verbatim>\<open>self.top_sentiments\<close> only after it
  has set them, and sets \<^verbatim>\<open>self.processed_data\<close> (first to the streamlined frame, at line
  266 to the full frame) and \<^verbatim>\<open>self.quintile_analysis\<close>; where it finds no segment it
  returns \<^verbatim>\<open>None\<close> and leaves the processor as it was.\<close>

lemma streamlined_stage_cong:
  assumes "predictions self1 = predictions self2"
  shows "map_option (\<lambda>x. (fst x, processed_data (snd x), top_sentiments (snd x), conversation_length (snd x)))
           (streamlined_stage enum self1)
       = map_option (\<lambda>x. (fst x, processed_data (snd x), top_sentiments (snd x), conversation_length (snd x)))
           (streamlined_stage enum self2)"
  using assms by (simp add: streamlined_stage_def Let_def create_streamlined_data_def)

lemma process_fst_cong:
  assumes "predictions self1 = predictions self2"
  shows "fst (process_sentiment_data enum1 self1) = fst (process_sentiment_data enum2 self2)"
  using assms
  by (simp add: process_sentiment_data_def streamlined_stage_def Let_def split: option.splits)

lemma process_snd_cong:
  assumes "predictions self1 = predictions self2"
    and "fst (process_sentiment_data enum self1) \<noteq> None"
  shows "snd (process_sentiment_data enum self1) = snd (process_sentiment_data enum self2)"
  using assms
  by (cases self1; cases self2)
     (simp add: process_sentiment_data_def streamlined_stage_def Let_def create_streamlined_data_def
        analyze_quintiles_def split: if_splits)

lemma process_predictions:
  "predictions (snd (process_sentiment_data enum self)) = predictions self"
  by (simp add: process_sentiment_data_def streamlined_stage_def Let_def create_streamlined_data_def
        analyze_quintiles_def split: option.splits)

lemma process_idempotent:
  "process_sentiment_data enum (snd (process_sentiment_data enum self)) = process_sentiment_data enum self"
proof (cases "fst (process_sentiment_data enum self) = None")
  case True
  then have "snd (process_sentiment_data enum self) = self"
    by (auto simp: process_sentiment_data_def split: option.splits)
  then show ?thesis by simp
next
  case False
  let ?s = "snd (process_sentiment_data enum self)"
  have p: "predictions ?s = predictions self" by (rule process_predictions)
  have f: "fst (process_sentiment_data enum ?s) = fst (process_sentiment_data enum self)"
    using p by (rule process_fst_cong)
  with False have "fst (process_sentiment_data enum ?s) \<noteq> None" by simp
  with p have "snd (process_sentiment_data enum ?s) = snd (process_sentiment_data enum self)"
    by (rule process_snd_cong)
  with f show ?thesis by (simp add: prod_eq_iff)
qed

lemma process_independent_of_enum:
  assumes "predictions self1 = predictions self2"
    and "fst (process_sentiment_data enum1 self1) \<noteq> None"
  shows "quintile_analysis (snd (process_sentiment_data enum1 self1))
           = quintile_analysis (snd (process_sentiment_data enum2 self2))"
    and "processed_data (snd (process_sentiment_data enum1 self1))
           = processed_data (snd (process_sentiment_data enum2 self2))"
    and "conversation_length (snd (process_sentiment_data enum1 self1))
           = conversation_length (snd (process_sentiment_data enum2 self2))"
  using assms
  by (simp_all add: process_sentiment_data_def streamlined_stage_def Let_def create_streamlined_data_def
        analyze_quintiles_def split: if_splits)

text \<open>
  Claim C9, as the code has it. For one iteration order of the set of names (one
  interpreter), what a run returns and stores depends on the predictions only, not on
  what the processor held before: two processors with the same predictions return the
  same frame, and where a frame is returned they end in the same state, with the same
  streamlined frame built on the way; running the processor again on its own result
  changes nothing. The returned frame, the quintile report and the stored table are the
  same for every iteration order (\<open>enum\<close>, \<open>enum'\<close>); the vocabulary and the streamlined
  frame are not.
\<close>

theorem run_is_deterministic:
  assumes "predictions self1 = predictions self2"
  shows "fst (process_sentiment_data enum self1) = fst (process_sentiment_data enum self2)
       \<and> (fst (process_sentiment_data enum self1) \<noteq> None \<longrightarrow>
            snd (process_sentiment_data enum self1) = snd (process_sentiment_data enum self2))
       \<and> map_option (\<lambda>x. (fst x, processed_data (snd x), top_sentiments (snd x), conversation_length (snd x)))
           (streamlined_stage enum self1)
         = map_option (\<lambda>x. (fst x, processed_data (snd x), top_sentiments (snd x), conversation_length (snd x)))
           (streamlined_stage enum self2)
       \<and> process_sentiment_data enum (snd (process_sentiment_data enum self1))
           = process_sentiment_data enum self1
       \<and> fst (process_sentiment_data enum self1) = fst (process_sentiment_data enum' self2)
       \<and> (fst (process_sentiment_data enum self1) \<noteq> None \<longrightarrow>
            quintile_analysis (snd (process_sentiment_data enum self1))
              = quintile_analysis (snd (process_sentiment_data enum' self2))
            \<and> processed_data (snd (process_sentiment_data enum self1))
              = processed_data (snd (process_sentiment_data enum' self2)))"
  using process_fst_cong[OF assms] process_snd_cong[OF assms] streamlined_stage_cong[OF assms]
    process_idempotent process_independent_of_enum(1,2)[OF assms]
  by blast

theorem run_is_deterministic_witness:
  "predictions (init_processor (Some scenario_payload)) = predictions stale_processor
   \<and> init_processor (Some scenario_payload) \<noteq> stale_processor
   \<and> fst (process_sentiment_data unique stale_processor) \<noteq> None
   \<and> process_sentiment_data unique (init_processor (Some scenario_payload))
       = process_sentiment_data unique stale_processor
   \<and> conversation_length (snd (process_sentiment_data unique stale_processor)) = 20"
proof -
  let ?s1 = "init_processor (Some scenario_payload)"
  have h: "predictions ?s1 = predictions stale_processor"
    by (simp add: init_processor_def stale_processor_def)
  have n: "?s1 \<noteq> stale_processor"
    by (simp add: init_processor_def stale_processor_def)
  have f: "fst (process_sentiment_data unique ?s1) \<noteq> None" by code_simp
  have c: "conversation_length (snd (process_sentiment_data unique stale_processor)) = 20" by code_simp
  from run_is_deterministic[OF h, of unique]
  have e1: "fst (process_sentiment_data unique ?s1) = fst (process_sentiment_data unique stale_processor)"
    and e2: "fst (process_sentiment_data unique ?s1) \<noteq> None \<longrightarrow>
      snd (process_sentiment_data unique ?s1) = snd (process_sentiment_data unique stale_processor)"
    by blast+
  from e1 e2 f have "process_sentiment_data unique ?s1 = process_sentiment_data unique stale_processor"
    by (simp add: prod_eq_iff)
  with h n f e1 c show ?thesis by simp
qed

lemma valid_enum_reversed_unique: "valid_enum reversed_unique"
  by (simp add: valid_enum_def reversed_unique_def unique_def)

text \<open>The claim as the spec states it fails: the source does not fix the iteration order
  of the set of names, and on the scenario payload two iteration orders give two
  streamlined frames (the columns Anger and Calm, of equal count, change places), and two
  vocabularies.\<close>

theorem flattened_table_follows_iteration_order:
  "valid_enum unique \<and> valid_enum reversed_unique
   \<and> map_option (\<lambda>x. processed_data (snd x))
        (streamlined_stage unique (init_processor (Some scenario_payload)))
       = Some (Some (Streamlined
           [(''speaker_id'', [CStr ''A'', CStr ''A'']), (''start_time'', [CNum 0, CNum 10]),
            (''end_time'', [CNum 10, CNum 20]), (''text'', [CStr [], CStr []]),
            (''quintile'', [CInt 1, CInt 3]),
            (''Joy'', [CNum (4 / 5), CNum (2 / 5)]),
            (''Anger'', [CNum 0, CNum (3 / 5)]),
            (''Calm'', [CNum (1 / 5), CNum 0])]))
   \<and> map_option (\<lambda>x. processed_data (snd x))
        (streamlined_stage reversed_unique (init_processor (Some scenario_payload)))
       = Some (Some (Streamlined
           [(''speaker_id'', [CStr ''A'', CStr ''A'']), (''start_time'', [CNum 0, CNum 10]),
            (''end_time'', [CNum 10, CNum 20]), (''text'', [CStr [], CStr []]),
            (''quintile'', [CInt 1, CInt 3]),
            (''Joy'', [CNum (4 / 5), CNum (2 / 5)]),
            (''Calm'', [CNum (1 / 5), CNum 0]),
            (''Anger'', [CNum 0, CNum (3 / 5)])]))
   \<and> map_option (\<lambda>x. processed_data (snd x))
        (streamlined_stage unique (init_processor (Some scenario_payload)))
       \<noteq> map_option (\<lambda>x. processed_data (snd x))
        (streamlined_stage reversed_unique (init_processor (Some scenario_payload)))
   \<and> top_sentiments (snd (process_sentiment_data unique (init_processor (Some scenario_payload))))
       = [''Joy'', ''Anger'', ''Calm'']
   \<and> top_sentiments (snd (process_sentiment_data reversed_unique (init_processor (Some scenario_payload))))
       = [''Joy'', ''Calm'', ''Anger'']"
proof -
  let ?self = "init_processor (Some scenario_payload)"
  have a: "map_option (\<lambda>x. processed_data (snd x)) (streamlined_stage unique ?self)
       = Some (Some (Streamlined
           [(''speaker_id'', [CStr ''A'', CStr ''A'']), (''start_time'', [CNum 0, CNum 10]),
            (''end_time'', [CNum 10, CNum 20]), (''text'', [CStr [], CStr []]),
            (''quintile'', [CInt 1, CInt 3]),
            (''Joy'', [CNum (4 / 5), CNum (2 / 5)]),
            (''Anger'', [CNum 0, CNum (3 / 5)]),
            (''Calm'', [CNum (1 / 5), CNum 0])]))"
    by code_simp
  have b: "map_option (\<lambda>x. processed_data (snd x)) (streamlined_stage reversed_unique ?self)
       = Some (Some (Streamlined
           [(''speaker_id'', [CStr ''A'', CStr ''A'']), (''start_time'', [CNum 0, CNum 10]),
            (''end_time'', [CNum 10, CNum 20]), (''text'', [CStr [], CStr []]),
            (''quintile'', [CInt 1, CInt 3]),
            (''Joy'', [CNum (4 / 5), CNum (2 / 5)]),
            (''Calm'', [CNum (1 / 5), CNum 0]),
            (''Anger'', [CNum 0, CNum (3 / 5)])]))"
    by code_simp
  have n: "map_option (\<lambda>x. processed_data (snd x)) (streamlined_stage unique ?self)
       \<noteq> map_option (\<lambda>x. processed_data (snd x)) (streamlined_stage reversed_unique ?self)"
    unfolding a b by simp
  have t: "top_sentiments (snd (process_sentiment_data unique ?self)) = [''Joy'', ''Anger'', ''Calm'']"
    by code_simp
  have u: "top_sentiments (snd (process_sentiment_data reversed_unique ?self)) = [''Joy'', ''Calm'', ''Anger'']"
    by code_simp
  from valid_enum_unique valid_enum_reversed_unique a b n t u show ?thesis by blast
qed

end
